theory Spec2Isabelle
  imports Main
begin

section \<open>JavaScript values\<close>

text \<open>
  The charge point of \<^verbatim>\<open>ocpp_chargepoint.js\<close> handles dynamically typed values: decoded
  JSON, \<^verbatim>\<open>undefined\<close> for a missing property or array element, and \<^verbatim>\<open>NaN\<close> from
  \<^verbatim>\<open>parseInt\<close>. Numbers are mathematical integers here: JSON numbers with a fraction
  or an exponent are outside the model (a double agrees with the integer, and prints as
  its decimal digits, below \<open>2^53\<close>). Strings are lists of 8-bit characters. An object is
  the list of its own properties in property order; its values are data, never functions.
\<close>

datatype jsval =
    JUndefined
  | JNull
  | JBool bool
  | JNum int
  | JNaN
  | JStr string
  | JArr "jsval list"
  | JObj "(string \<times> jsval) list"

text \<open>What the source can raise: a \<^verbatim>\<open>TypeError\<close> on a property read of \<^verbatim>\<open>null\<close> or
  \<^verbatim>\<open>undefined\<close>, a \<^verbatim>\<open>SyntaxError\<close> of \<^verbatim>\<open>JSON.parse\<close>. \<open>Unmodelled\<close> marks the
  inputs whose JavaScript semantics needs floating point or a string-to-number
  coercion that this development does not model; \<open>OutOfFuel\<close> is the answer of a
  recursive reader that was given too little fuel.\<close>

datatype error = TypeError | SyntaxError | Unmodelled | OutOfFuel

subsection \<open>Number to string\<close>

definition digit_char :: "nat \<Rightarrow> char" where
  "digit_char d = ''0123456789'' ! d"

fun show_nat :: "nat \<Rightarrow> string" where
  "show_nat n =
     (if n < 10 then [digit_char n]
      else show_nat (n div 10) @ [digit_char (n mod 10)])"

declare show_nat.simps [simp del]

definition number_to_string :: "int \<Rightarrow> string" where
  "number_to_string i = (if i < 0 then CHR ''-'' # show_nat (nat (- i)) else show_nat (nat i))"

text \<open>The value of a digit character, decimal or hexadecimal, and of a run of digits
  in base \<open>R\<close>.\<close>

definition digit_val :: "char \<Rightarrow> nat option" where
  "digit_val c =
     (let n = (of_char c :: nat)
      in if 48 \<le> n \<and> n \<le> 57 then Some (n - 48)
         else if 97 \<le> n \<and> n \<le> 102 then Some (n - 87)
         else if 65 \<le> n \<and> n \<le> 70 then Some (n - 55)
         else None)"

definition is_radix_digit :: "nat \<Rightarrow> char \<Rightarrow> bool" where
  "is_radix_digit R c = (case digit_val c of None \<Rightarrow> False | Some d \<Rightarrow> d < R)"

definition digits_value :: "nat \<Rightarrow> string \<Rightarrow> nat" where
  "digits_value R Z =
     foldl (\<lambda>acc c. acc * R + (case digit_val c of None \<Rightarrow> 0 | Some d \<Rightarrow> d)) 0 Z"

fun join_comma :: "string list \<Rightarrow> string" where
  "join_comma [] = []"
| "join_comma [x] = x"
| "join_comma (x # y # ys) = x @ '','' @ join_comma (y # ys)"

text \<open>Evaluation stops at the first error.\<close>

definition bind_error :: "error + 'a \<Rightarrow> ('a \<Rightarrow> error + 'b) \<Rightarrow> error + 'b" where
  "bind_error r f = (case r of Inl e \<Rightarrow> Inl e | Inr x \<Rightarrow> f x)"

text \<open>The first error of a list of results, or all their values.\<close>

fun sequence_errors :: "(error + 'a) list \<Rightarrow> error + 'a list" where
  "sequence_errors [] = Inr []"
| "sequence_errors (Inl e # rs) = Inl e"
| "sequence_errors (Inr x # rs) =
     (case sequence_errors rs of Inl e \<Rightarrow> Inl e | Inr xs \<Rightarrow> Inr (x # xs))"

text \<open>\<^verbatim>\<open>String(v)\<close>, the conversion of \<^verbatim>\<open>"text" + v\<close> and of a value stored by
  \<^verbatim>\<open>setItem\<close>. An array is the join of its elements with commas, \<^verbatim>\<open>null\<close> and
  \<^verbatim>\<open>undefined\<close> elements being empty. An object is \<^verbatim>\<open>[object Object]\<close>, unless it has
  a property of its own named \<^verbatim>\<open>toString\<close>: that property hides the method of the
  prototype, is not a function, and the conversion raises a \<^verbatim>\<open>TypeError\<close>.\<close>

fun js_to_string :: "jsval \<Rightarrow> error + string" where
  "js_to_string JUndefined = Inr ''undefined''"
| "js_to_string JNull = Inr ''null''"
| "js_to_string (JBool b) = Inr (if b then ''true'' else ''false'')"
| "js_to_string (JNum i) = Inr (number_to_string i)"
| "js_to_string JNaN = Inr ''NaN''"
| "js_to_string (JStr s) = Inr s"
| "js_to_string (JArr xs) =
     (case sequence_errors
             (map (\<lambda>x. if x = JUndefined \<or> x = JNull then Inr [] else js_to_string x) xs) of
        Inl e \<Rightarrow> Inl e
      | Inr strs \<Rightarrow> Inr (join_comma strs))"
| "js_to_string (JObj kvs) =
     (if ''toString'' \<in> set (map fst kvs) then Inl TypeError else Inr ''[object Object]'')"

text \<open>The white space and line terminators among the 8-bit characters.\<close>

definition is_js_space :: "char \<Rightarrow> bool" where
  "is_js_space c = (c \<in> set [CHR 0x09, CHR 0x0A, CHR 0x0B, CHR 0x0C, CHR 0x0D, CHR 0x20, CHR 0xA0])"

text \<open>\<^verbatim>\<open>Number(str)\<close>, the conversion of a string operand of \<^verbatim>\<open>*\<close>. White space at both
  ends is dropped. The empty string is 0, and a run of decimal digits with an optional
  sign is its value, leading zeros allowed. Any other numeric literal either starts
  with one of the prefixes \<^verbatim>\<open>0x\<close>, \<^verbatim>\<open>0o\<close>, \<^verbatim>\<open>0b\<close> or is made of the characters of decimal
  literals and of \<^verbatim>\<open>Infinity\<close>: a string of neither kind is \<^verbatim>\<open>NaN\<close>. What remains is
  \<open>Unmodelled\<close>: the strings of these two kinds (fractions, exponents, \<^verbatim>\<open>Infinity\<close>, the
  prefixed literals, and the strings of that shape that are no literal at all), the
  digit strings above \<open>2^53\<close>, which a double rounds, and the negative zero.\<close>

definition decimal_value :: "string \<Rightarrow> int" where
  "decimal_value ds =
     foldl (\<lambda>acc c. acc * 10 + (case digit_val c of None \<Rightarrow> 0 | Some d \<Rightarrow> int d)) 0 ds"

definition string_to_number :: "string \<Rightarrow> error + jsval" where
  "string_to_number str =
     (let t = rev (dropWhile is_js_space (rev (dropWhile is_js_space str)));
          negative = (t \<noteq> [] \<and> hd t = CHR ''-'');
          ds = (if t \<noteq> [] \<and> (hd t = CHR ''+'' \<or> hd t = CHR ''-'') then tl t else t)
      in if t = [] then Inr (JNum 0)
         else if ds \<noteq> [] \<and> list_all (is_radix_digit 10) ds then
           (if 2 ^ 53 < decimal_value ds \<or> (negative \<and> decimal_value ds = 0)
              then Inl Unmodelled
            else Inr (JNum (if negative then - decimal_value ds else decimal_value ds)))
         else if take 2 t \<in> set [''0x'', ''0X'', ''0o'', ''0O'', ''0b'', ''0B'']
                 \<or> list_all (\<lambda>c. c \<in> set ''0123456789+-.eEInfity'') t
           then Inl Unmodelled
         else Inr JNaN)"

text \<open>\<^verbatim>\<open>Number(v)\<close>, the conversion of an operand of \<^verbatim>\<open>*\<close>: a number or \<^verbatim>\<open>NaN\<close>. An array
  or an object is converted through its string, since \<^verbatim>\<open>valueOf\<close> answers the object
  itself; the conversion raises where the conversion to a string does.\<close>

fun js_to_number :: "jsval \<Rightarrow> error + jsval" where
  "js_to_number (JNum i) = Inr (JNum i)"
| "js_to_number JNaN = Inr JNaN"
| "js_to_number JUndefined = Inr JNaN"
| "js_to_number JNull = Inr (JNum 0)"
| "js_to_number (JBool b) = Inr (JNum (if b then 1 else 0))"
| "js_to_number (JStr s) = string_to_number s"
| "js_to_number (JArr xs) = bind_error (js_to_string (JArr xs)) string_to_number"
| "js_to_number (JObj kvs) = bind_error (js_to_string (JObj kvs)) string_to_number"

text \<open>\<^verbatim>\<open>!v\<close> is true exactly for the falsy values.\<close>

fun js_truthy :: "jsval \<Rightarrow> bool" where
  "js_truthy JUndefined = False"
| "js_truthy JNull = False"
| "js_truthy (JBool b) = b"
| "js_truthy (JNum i) = (i \<noteq> 0)"
| "js_truthy JNaN = False"
| "js_truthy (JStr s) = (s \<noteq> [])"
| "js_truthy (JArr xs) = True"
| "js_truthy (JObj kvs) = True"

text \<open>\<^verbatim>\<open>v.name\<close> for a property name that no built-in prototype defines (every name the
  charge point reads: \<^verbatim>\<open>status\<close>, \<^verbatim>\<open>interval\<close>, \<^verbatim>\<open>idTagInfo\<close>, \<^verbatim>\<open>transactionId\<close>).\<close>

fun js_get :: "jsval \<Rightarrow> string \<Rightarrow> error + jsval" where
  "js_get JUndefined name = Inl TypeError"
| "js_get JNull name = Inl TypeError"
| "js_get (JObj kvs) name = (case map_of kvs name of None \<Rightarrow> Inr JUndefined | Some v \<Rightarrow> Inr v)"
| "js_get v name = Inr JUndefined"

text \<open>\<^verbatim>\<open>v == "word"\<close> for a string literal that is not numeric (\<^verbatim>\<open>'Accepted'\<close>,
  \<^verbatim>\<open>'Invalid'\<close>): a number or a boolean is compared with \<^verbatim>\<open>NaN\<close> and differs, an array
  or an object is compared through its string.\<close>

fun js_loose_eq_word :: "jsval \<Rightarrow> string \<Rightarrow> error + bool" where
  "js_loose_eq_word (JStr s) w = Inr (s = w)"
| "js_loose_eq_word (JArr xs) w =
     (case js_to_string (JArr xs) of Inl e \<Rightarrow> Inl e | Inr str \<Rightarrow> Inr (str = w))"
| "js_loose_eq_word (JObj kvs) w =
     (case js_to_string (JObj kvs) of Inl e \<Rightarrow> Inl e | Inr str \<Rightarrow> Inr (str = w))"
| "js_loose_eq_word v w = Inr False"

subsection \<open>\<^verbatim>\<open>JSON.stringify\<close>\<close>

definition hex_digit :: "nat \<Rightarrow> char" where
  "hex_digit n = ''0123456789abcdef'' ! n"

definition json_escape_char :: "char \<Rightarrow> string" where
  "json_escape_char c =
     (if c = CHR 0x22 then [CHR 0x5C, CHR 0x22]
      else if c = CHR 0x5C then [CHR 0x5C, CHR 0x5C]
      else if c = CHR 0x08 then [CHR 0x5C, CHR ''b'']
      else if c = CHR 0x0C then [CHR 0x5C, CHR ''f'']
      else if c = CHR 0x0A then [CHR 0x5C, CHR ''n'']
      else if c = CHR 0x0D then [CHR 0x5C, CHR ''r'']
      else if c = CHR 0x09 then [CHR 0x5C, CHR ''t'']
      else if (of_char c :: nat) < 32
        then [CHR 0x5C, CHR ''u'', CHR ''0'', CHR ''0'',
              hex_digit (of_char c div 16), hex_digit (of_char c mod 16)]
      else [c])"

definition json_quote :: "string \<Rightarrow> string" where
  "json_quote s = CHR 0x22 # concat (map json_escape_char s) @ [CHR 0x22]"

text \<open>The text of a value inside an array or an object. \<^verbatim>\<open>NaN\<close> is written
  \<^verbatim>\<open>null\<close>, an \<^verbatim>\<open>undefined\<close> array element is written \<^verbatim>\<open>null\<close>, an object property
  whose value is \<^verbatim>\<open>undefined\<close> is left out.\<close>

fun json_text :: "jsval \<Rightarrow> string" where
  "json_text JUndefined = ''null''"
| "json_text JNull = ''null''"
| "json_text (JBool b) = (if b then ''true'' else ''false'')"
| "json_text (JNum i) = number_to_string i"
| "json_text JNaN = ''null''"
| "json_text (JStr s) = json_quote s"
| "json_text (JArr xs) = ''['' @ join_comma (map json_text xs) @ '']''"
| "json_text (JObj kvs) =
     ''{'' @ join_comma (map (\<lambda>(k, v). json_quote k @ '':'' @ json_text v)
                           (filter (\<lambda>(k, v). v \<noteq> JUndefined) kvs)) @ ''}''"

text \<open>\<^verbatim>\<open>JSON.stringify(v)\<close> is \<^verbatim>\<open>undefined\<close> for \<^verbatim>\<open>undefined\<close>, a string otherwise;
  \<open>text_or_undefined\<close> is what a concatenation makes of it.\<close>

definition JSON_stringify :: "jsval \<Rightarrow> string option" where
  "JSON_stringify v = (if v = JUndefined then None else Some (json_text v))"

definition text_or_undefined :: "string option \<Rightarrow> string" where
  "text_or_undefined r = (case r of None \<Rightarrow> ''undefined'' | Some t \<Rightarrow> t)"

subsection \<open>\<^verbatim>\<open>JSON.parse\<close>\<close>

text \<open>
  A recursive-descent reading of JSON text. White space is allowed around every token;
  a string is read up to its closing quote, with the escapes of JSON; a number is an
  optional minus sign and decimal digits without a leading zero (a fraction or an
  exponent is \<open>Unmodelled\<close>, and so is a four-digit escape beyond the 8-bit characters).
  A property read into an object takes its place in property order: an array index
  (\<^verbatim>\<open>"0"\<close>, \<^verbatim>\<open>"1"\<close>, ...) goes among the indices in ascending order, any other name goes
  last, and a name read again keeps its place and takes the new value.
  The functions that read nested values take fuel, one unit for each call;
  \<^verbatim>\<open>JSON.parse\<close> gives them more than twice the length of the text, which they never
  exhaust.
\<close>

definition is_json_ws :: "char \<Rightarrow> bool" where
  "is_json_ws c = (c \<in> set [CHR 0x20, CHR 0x09, CHR 0x0A, CHR 0x0D])"

definition skip_ws :: "string \<Rightarrow> string" where
  "skip_ws s = dropWhile is_json_ws s"

definition hex4 :: "string \<Rightarrow> nat option" where
  "hex4 hs = (if length hs = 4 \<and> list_all (is_radix_digit 16) hs then Some (digits_value 16 hs) else None)"

definition unescape :: "char \<Rightarrow> char option" where
  "unescape e =
     (if e = CHR 0x22 then Some (CHR 0x22)
      else if e = CHR 0x5C then Some (CHR 0x5C)
      else if e = CHR ''/'' then Some (CHR ''/'')
      else if e = CHR ''b'' then Some (CHR 0x08)
      else if e = CHR ''f'' then Some (CHR 0x0C)
      else if e = CHR ''n'' then Some (CHR 0x0A)
      else if e = CHR ''r'' then Some (CHR 0x0D)
      else if e = CHR ''t'' then Some (CHR 0x09)
      else None)"

definition cons_char :: "char \<Rightarrow> error + string \<times> string \<Rightarrow> error + string \<times> string" where
  "cons_char c r = (case r of Inl e \<Rightarrow> Inl e | Inr (str, rest) \<Rightarrow> Inr (c # str, rest))"

function parse_chars :: "string \<Rightarrow> error + string \<times> string" where
  "parse_chars [] = Inl SyntaxError"
| "parse_chars (c # cs) =
     (if c = CHR 0x22 then Inr ([], cs)
      else if c = CHR 0x5C then
        (case cs of
           [] \<Rightarrow> Inl SyntaxError
         | e # cs' \<Rightarrow>
             if e = CHR ''u'' then
               (case hex4 (take 4 cs') of
                  None \<Rightarrow> Inl SyntaxError
                | Some code \<Rightarrow>
                    if code < 256 then cons_char (char_of code) (parse_chars (drop 4 cs'))
                    else Inl Unmodelled)
             else
               (case unescape e of
                  None \<Rightarrow> Inl SyntaxError
                | Some ch \<Rightarrow> cons_char ch (parse_chars cs')))
      else if (of_char c :: nat) < 32 then Inl SyntaxError
      else cons_char c (parse_chars cs))"
  by pat_completeness auto
termination
  by (relation "measure length") auto

definition parse_number :: "string \<Rightarrow> error + jsval \<times> string" where
  "parse_number s =
     (let negative = (s \<noteq> [] \<and> hd s = CHR ''-'');
          s1 = (if negative then tl s else s);
          ds = takeWhile (is_radix_digit 10) s1;
          rest = dropWhile (is_radix_digit 10) s1
      in if ds = [] then Inl SyntaxError
         else if 1 < length ds \<and> hd ds = CHR ''0'' then Inl SyntaxError
         else if rest \<noteq> [] \<and> hd rest \<in> set ''.eE'' then Inl Unmodelled
         else Inr (JNum (if negative then - int (digits_value 10 ds) else int (digits_value 10 ds)),
                   rest))"

definition is_array_index :: "string \<Rightarrow> bool" where
  "is_array_index k =
     (k \<noteq> [] \<and> list_all (is_radix_digit 10) k \<and> (k = ''0'' \<or> hd k \<noteq> CHR ''0'')
      \<and> int (digits_value 10 k) < 4294967295)"

fun insert_index :: "string \<Rightarrow> jsval \<Rightarrow> (string \<times> jsval) list \<Rightarrow> (string \<times> jsval) list" where
  "insert_index k v [] = [(k, v)]"
| "insert_index k v ((k', v') # kvs) =
     (if is_array_index k' \<and> digits_value 10 k' < digits_value 10 k
      then (k', v') # insert_index k v kvs
      else (k, v) # (k', v') # kvs)"

definition obj_set :: "(string \<times> jsval) list \<Rightarrow> string \<Rightarrow> jsval \<Rightarrow> (string \<times> jsval) list" where
  "obj_set kvs k v =
     (if k \<in> set (map fst kvs) then map (\<lambda>(k', v'). if k' = k then (k', v) else (k', v')) kvs
      else if is_array_index k then insert_index k v kvs
      else kvs @ [(k, v)])"

fun parse_value :: "nat \<Rightarrow> string \<Rightarrow> error + jsval \<times> string"
and parse_elements :: "nat \<Rightarrow> string \<Rightarrow> error + jsval list \<times> string"
and parse_members :: "nat \<Rightarrow> (string \<times> jsval) list \<Rightarrow> string \<Rightarrow> error + (string \<times> jsval) list \<times> string"
where
  "parse_value 0 s = Inl OutOfFuel"
| "parse_value (Suc n) s =
     (case skip_ws s of
        [] \<Rightarrow> Inl SyntaxError
      | c # r \<Rightarrow>
          if c = CHR ''['' then
            (case skip_ws r of
               [] \<Rightarrow> Inl SyntaxError
             | c' # r' \<Rightarrow> if c' = CHR '']'' then Inr (JArr [], r')
                 else (case parse_elements n r of
                         Inl e \<Rightarrow> Inl e
                       | Inr (xs, rest) \<Rightarrow> Inr (JArr xs, rest)))
          else if c = CHR ''{'' then
            (case skip_ws r of
               [] \<Rightarrow> Inl SyntaxError
             | c' # r' \<Rightarrow> if c' = CHR ''}'' then Inr (JObj [], r')
                 else (case parse_members n [] r of
                         Inl e \<Rightarrow> Inl e
                       | Inr (kvs, rest) \<Rightarrow> Inr (JObj kvs, rest)))
          else if c = CHR 0x22 then
            (case parse_chars r of
               Inl e \<Rightarrow> Inl e
             | Inr (str, rest) \<Rightarrow> Inr (JStr str, rest))
          else if take 4 (c # r) = ''null'' then Inr (JNull, drop 4 (c # r))
          else if take 4 (c # r) = ''true'' then Inr (JBool True, drop 4 (c # r))
          else if take 5 (c # r) = ''false'' then Inr (JBool False, drop 5 (c # r))
          else parse_number (c # r))"
| "parse_elements 0 s = Inl OutOfFuel"
| "parse_elements (Suc n) s =
     (case parse_value n s of
        Inl e \<Rightarrow> Inl e
      | Inr (x, rest) \<Rightarrow>
          (case skip_ws rest of
             [] \<Rightarrow> Inl SyntaxError
           | c # r \<Rightarrow>
               if c = CHR '']'' then Inr ([x], r)
               else if c = CHR '','' then
                 (case parse_elements n r of
                    Inl e \<Rightarrow> Inl e
                  | Inr (xs, rest') \<Rightarrow> Inr (x # xs, rest'))
               else Inl SyntaxError))"
| "parse_members 0 acc s = Inl OutOfFuel"
| "parse_members (Suc n) acc s =
     (case skip_ws s of
        [] \<Rightarrow> Inl SyntaxError
      | q # r \<Rightarrow>
          if q \<noteq> CHR 0x22 then Inl SyntaxError
          else
            (case parse_chars r of
               Inl e \<Rightarrow> Inl e
             | Inr (k, rest) \<Rightarrow>
                 (case skip_ws rest of
                    [] \<Rightarrow> Inl SyntaxError
                  | colon # r1 \<Rightarrow>
                      if colon \<noteq> CHR '':'' then Inl SyntaxError
                      else
                        (case parse_value n r1 of
                           Inl e \<Rightarrow> Inl e
                         | Inr (v, rest1) \<Rightarrow>
                             (case skip_ws rest1 of
                                [] \<Rightarrow> Inl SyntaxError
                              | c # r2 \<Rightarrow>
                                  if c = CHR ''}'' then Inr (obj_set acc k v, r2)
                                  else if c = CHR '','' then parse_members n (obj_set acc k v) r2
                                  else Inl SyntaxError)))))"

definition JSON_parse :: "string \<Rightarrow> error + jsval" where
  "JSON_parse text =
     (case parse_value (2 * length text + 2) text of
        Inl e \<Rightarrow> Inl e
      | Inr (v, rest) \<Rightarrow> if skip_ws rest = [] then Inr v else Inl SyntaxError)"

text \<open>The values \<^verbatim>\<open>JSON.parse\<close> can return: no \<^verbatim>\<open>undefined\<close>, no \<^verbatim>\<open>NaN\<close>, and the
  properties of every object in property order, which is to say that reading the
  properties one after the other into an empty object gives the same list back.\<close>

definition obj_ordered :: "(string \<times> jsval) list \<Rightarrow> bool" where
  "obj_ordered kvs = (foldl (\<lambda>acc (k, v). obj_set acc k v) [] kvs = kvs)"

fun is_json :: "jsval \<Rightarrow> bool" where
  "is_json JUndefined = False"
| "is_json JNaN = False"
| "is_json JNull = True"
| "is_json (JBool b) = True"
| "is_json (JNum i) = True"
| "is_json (JStr s) = True"
| "is_json (JArr xs) = list_all is_json xs"
| "is_json (JObj kvs) = (obj_ordered kvs \<and> list_all (\<lambda>kv. is_json (snd kv)) kvs)"

text \<open>The characters a value's text can start with, and the text of one property.\<close>

definition value_start :: "char \<Rightarrow> bool" where
  "value_start c = (c \<in> set ''ntf-0123456789[{'' \<or> c = CHR 0x22)"

definition member_text :: "string \<times> jsval \<Rightarrow> string" where
  "member_text kv = json_quote (fst kv) @ '':'' @ json_text (snd kv)"

text \<open>What can follow a value inside JSON text.\<close>

definition follow_ok :: "string \<Rightarrow> bool" where
  "follow_ok rest = (case rest of [] \<Rightarrow> True | c # cs \<Rightarrow> c \<in> set '',]}'')"

section \<open>The constants of \<^verbatim>\<open>ocpp_constants.js\<close>\<close>

text \<open>
  The module \<^verbatim>\<open>ocpp_constants.js\<close> is imported as \<^verbatim>\<open>ocpp\<close> and is not among the
  sources. Its constants are a parameter of every operation; what a property needs of
  them (two names being different, for instance) is a hypothesis of its theorem.
\<close>

record ocpp_constants =
  KEY_CP_STATUS :: string
  KEY_METER_VALUE :: string
  KEY_CONN_STATUS :: string
  KEY_CONN_AVAILABILITY :: string
  CP_ERROR :: string
  CP_DISCONNECTED :: string
  CP_CONNECTING :: string
  CP_CONNECTED :: string
  CP_AUTHORIZED :: string
  CP_INTRANSACTION :: string
  CONN_AVAILABLE :: string
  CONN_CHARGING :: string
  CONN_FINISHING :: string
  CONN_UNAVAILABLE :: string
  AVAILABITY_OPERATIVE :: string
  AVAILABITY_INOPERATIVE :: string
  BOOT_NOTIFICATION :: string
  AUTHORIZE :: string
  START_TRANSACTION :: string
  STOP_TRANSACTION :: string
  HEARTBEAT :: string
  METERVALUES :: string
  STATUSNOTIFICATION :: string

section \<open>The charge point and its environment\<close>

text \<open>
  Every interaction with the browser is an effect, appended to a chronological trace:
  writes to session and local storage, console lines, socket calls, observer calls,
  interval timers.
\<close>

datatype timer_callback = SendHeartbeat

datatype effect =
    SessionSet string string
  | LocalSet string string
  | ConsoleLog string
  | WsSend string
  | WsClose int
  | StatusChangeCb string string
  | AvailabilityChangeCb int string
  | LoggingCb string
  | SetInterval nat timer_callback jsval
  | ClearInterval nat

text \<open>
  The fields of the \<^verbatim>\<open>ChargePoint\<close> object come first (\<open>websocket\<close> tells whether
  \<^verbatim>\<open>this._websocket\<close> is a socket or \<^verbatim>\<open>null\<close>; an observer is registered or not), then
  the browser: the two stores, the active interval timers with the handle the next
  \<^verbatim>\<open>setInterval\<close> returns, the successive readings of the clock
  (\<^verbatim>\<open>luxon.DateTime.utc().toISO()\<close>) and of \<^verbatim>\<open>Math.floor(Math.random() * 62)\<close>.
  A socket that is present accepts \<^verbatim>\<open>send\<close> (it has left the connecting state, in which
  \<^verbatim>\<open>send\<close> raises), and an observer does nothing but take note of its call.
\<close>

record chargepoint =
  websocket :: bool
  heartbeat :: "nat option"
  statusChangeCb :: bool
  availabilityChangeCb :: bool
  loggingCb :: bool
  remoteStartStopResponse :: string
  remoteStartDelaySeconds :: int
  sessionStorage :: "string \<rightharpoonup> string"
  localStorage :: "string \<rightharpoonup> string"
  intervals :: "nat \<rightharpoonup> timer_callback \<times> jsval"
  next_timer :: nat
  clock :: "nat \<Rightarrow> string"
  clock_reads :: nat
  random :: "nat \<Rightarrow> nat"
  random_reads :: nat
  effects :: "effect list"

definition emit :: "effect \<Rightarrow> chargepoint \<Rightarrow> chargepoint" where
  "emit e s = s\<lparr>effects := effects s @ [e]\<rparr>"

text \<open>A method that can raise returns normally, with the state it leaves, or throws,
  with the error and the state reached when it was raised.\<close>

datatype outcome = Returns chargepoint | Throws error chargepoint

definition state_after :: "outcome \<Rightarrow> chargepoint" where
  "state_after r = (case r of Returns s \<Rightarrow> s | Throws e s \<Rightarrow> s)"

subsection \<open>Utility functions\<close>

definition possible :: string where
  "possible = ''ABCDEFGHIJKLMNOPQRSTUVWXYZabcdefghijklmnopqrstuvwxyz0123456789''"

definition charAt :: "string \<Rightarrow> nat \<Rightarrow> string" where
  "charAt str i = (if i < length str then [str ! i] else [])"

text \<open>The loop of \<^verbatim>\<open>generateId\<close>, \<open>n\<close> iterations left.\<close>

fun generateId_loop :: "nat \<Rightarrow> string \<Rightarrow> chargepoint \<Rightarrow> string \<times> chargepoint" where
  "generateId_loop 0 ident s = (ident, s)"
| "generateId_loop (Suc n) ident s =
     generateId_loop n (ident @ charAt possible (random s (random_reads s)))
       (s\<lparr>random_reads := Suc (random_reads s)\<rparr>)"

definition generateId :: "chargepoint \<Rightarrow> string \<times> chargepoint" where
  "generateId s = generateId_loop 36 [] s"

definition utc_now_iso :: "chargepoint \<Rightarrow> string \<times> chargepoint" where
  "utc_now_iso s = (clock s (clock_reads s), s\<lparr>clock_reads := Suc (clock_reads s)\<rparr>)"

definition setSessionKey :: "string \<Rightarrow> string \<Rightarrow> chargepoint \<Rightarrow> chargepoint" where
  "setSessionKey key val s =
     emit (SessionSet key val) (s\<lparr>sessionStorage := (sessionStorage s)(key \<mapsto> val)\<rparr>)"

definition getSessionKey :: "string \<Rightarrow> string \<Rightarrow> chargepoint \<Rightarrow> string" where
  "getSessionKey key default_value s =
     (case sessionStorage s key of
        None \<Rightarrow> default_value
      | Some v \<Rightarrow> if v = [] then default_value else v)"

definition setKey :: "string \<Rightarrow> string \<Rightarrow> chargepoint \<Rightarrow> chargepoint" where
  "setKey key val s =
     emit (LocalSet key val) (s\<lparr>localStorage := (localStorage s)(key \<mapsto> val)\<rparr>)"

definition getKey :: "string \<Rightarrow> string \<Rightarrow> chargepoint \<Rightarrow> string" where
  "getKey key default_value s =
     (case localStorage s key of
        None \<Rightarrow> default_value
      | Some v \<Rightarrow> if v = [] then default_value else v)"

subsection \<open>Logging, status, sending\<close>

definition logMsg :: "string \<Rightarrow> chargepoint \<Rightarrow> chargepoint" where
  "logMsg msg s = (if loggingCb s then emit (LoggingCb (''[OCPP] '' @ msg)) s else s)"

definition setStatus :: "ocpp_constants \<Rightarrow> string \<Rightarrow> string \<Rightarrow> chargepoint \<Rightarrow> chargepoint" where
  "setStatus ocpp st msg s =
     (let s1 = setSessionKey (KEY_CP_STATUS ocpp) st s
      in if statusChangeCb s1 then emit (StatusChangeCb st msg) s1 else s1)"

definition status :: "ocpp_constants \<Rightarrow> chargepoint \<Rightarrow> string" where
  "status ocpp s = getSessionKey (KEY_CP_STATUS ocpp) [] s"

definition setLastAction :: "string \<Rightarrow> chargepoint \<Rightarrow> chargepoint" where
  "setLastAction action s = setSessionKey ''LastAction'' action s"

definition getLastAction :: "chargepoint \<Rightarrow> string" where
  "getLastAction s = getSessionKey ''LastAction'' [] s"

definition outbound_line :: "string \<Rightarrow> string \<Rightarrow> string" where
  "outbound_line ts frame = ''['' @ ts @ ''] [ -> ] '' @ frame"

definition wsSendData :: "ocpp_constants \<Rightarrow> string \<Rightarrow> chargepoint \<Rightarrow> chargepoint" where
  "wsSendData ocpp frame s =
     (let (ts, s1) = utc_now_iso s;
          s2 = emit (ConsoleLog (outbound_line ts frame)) s1
      in if websocket s2 then emit (WsSend frame) s2
         else setStatus ocpp (CP_ERROR ocpp) ''No connection to OCPP server'' s2)"

subsection \<open>Connectors\<close>

text \<open>A connector id is a JavaScript number holding an integer; the storage key is the
  key prefix followed by its decimal text.\<close>

definition connectorStatus :: "ocpp_constants \<Rightarrow> int \<Rightarrow> chargepoint \<Rightarrow> string" where
  "connectorStatus ocpp c s = getSessionKey (KEY_CONN_STATUS ocpp @ number_to_string c) [] s"

definition status_notification :: "string \<Rightarrow> int \<Rightarrow> string \<Rightarrow> string \<Rightarrow> jsval" where
  "status_notification ident c st ts =
     JArr [JNum 2, JStr ident, JStr ''StatusNotification'',
           JObj [(''connectorId'', JNum c), (''errorCode'', JStr ''NoError''),
                 (''status'', JStr st), (''timestamp'', JStr ts)]]"

definition sendStatusNotification :: "ocpp_constants \<Rightarrow> int \<Rightarrow> chargepoint \<Rightarrow> chargepoint" where
  "sendStatusNotification ocpp c s =
     (let st = connectorStatus ocpp c s;
          s1 = setLastAction ''StatusNotification'' s;
          (ident, s2) = generateId s1;
          (ts, s3) = utc_now_iso s2;
          sn_req = json_text (status_notification ident c st ts);
          s4 = logMsg (''Sending StatusNotification for connector '' @ number_to_string c
                        @ '': '' @ st) s3
      in wsSendData ocpp sn_req s4)"

definition setConnectorStatus ::
  "ocpp_constants \<Rightarrow> int \<Rightarrow> string \<Rightarrow> bool \<Rightarrow> chargepoint \<Rightarrow> chargepoint" where
  "setConnectorStatus ocpp c newStatus updateServer s =
     (let s1 = setSessionKey (KEY_CONN_STATUS ocpp @ number_to_string c) newStatus s
      in if updateServer then sendStatusNotification ocpp c s1 else s1)"

definition availability :: "ocpp_constants \<Rightarrow> int \<Rightarrow> chargepoint \<Rightarrow> string" where
  "availability ocpp c s =
     getKey (KEY_CONN_AVAILABILITY ocpp @ number_to_string c) (AVAILABITY_OPERATIVE ocpp) s"

text \<open>The body of \<^verbatim>\<open>setConnectorAvailability\<close> before its recursive calls.\<close>

definition setConnectorAvailability_body ::
  "ocpp_constants \<Rightarrow> int \<Rightarrow> string \<Rightarrow> chargepoint \<Rightarrow> chargepoint" where
  "setConnectorAvailability_body ocpp c newAvailability s =
     (let s1 = setKey (KEY_CONN_AVAILABILITY ocpp @ number_to_string c) newAvailability s;
          s2 = (if newAvailability = AVAILABITY_INOPERATIVE ocpp
                  then setConnectorStatus ocpp c (CONN_UNAVAILABLE ocpp) True s1
                else if newAvailability = AVAILABITY_INOPERATIVE ocpp
                  then setConnectorStatus ocpp c (CONN_AVAILABLE ocpp) True s1
                else s1)
      in if availabilityChangeCb s2 then emit (AvailabilityChangeCb c newAvailability) s2
         else s2)"

function setConnectorAvailability ::
  "ocpp_constants \<Rightarrow> int \<Rightarrow> string \<Rightarrow> chargepoint \<Rightarrow> chargepoint" where
  "setConnectorAvailability ocpp c newAvailability s =
     (let s3 = setConnectorAvailability_body ocpp c newAvailability s
      in if c = 0
           then (let s4 = setConnectorAvailability ocpp 1 newAvailability s3
                 in setConnectorAvailability ocpp 2 newAvailability s4)
         else s3)"
  by pat_completeness auto
termination
  by (relation "measure (\<lambda>(ocpp, c, newAvailability, s). if c = 0 then 1 else 0)") auto

declare setConnectorAvailability.simps [simp del]

subsection \<open>Heartbeat\<close>

definition call_frame :: "string \<Rightarrow> string \<Rightarrow> jsval \<Rightarrow> jsval" where
  "call_frame ident action payload = JArr [JNum 2, JStr ident, JStr action, payload]"

definition sendHeartbeat :: "ocpp_constants \<Rightarrow> chargepoint \<Rightarrow> chargepoint" where
  "sendHeartbeat ocpp s =
     (let s1 = setLastAction ''Heartbeat'' s;
          (ident, s2) = generateId s1;
          HB = json_text (call_frame ident ''Heartbeat'' (JObj []));
          s3 = logMsg ''Heartbeat'' s2
      in wsSendData ocpp HB s3)"

text \<open>\<^verbatim>\<open>setInterval\<close> returns a fresh positive handle; \<^verbatim>\<open>clearInterval\<close> of a handle that
  is not active does nothing. The timer keeps the delay it was given.\<close>

definition setInterval ::
  "timer_callback \<Rightarrow> jsval \<Rightarrow> chargepoint \<Rightarrow> nat \<times> chargepoint" where
  "setInterval cb delay s =
     (let h = Suc (next_timer s)
      in (h, emit (SetInterval h cb delay)
               (s\<lparr>intervals := (intervals s)(h \<mapsto> (cb, delay)), next_timer := h\<rparr>)))"

definition clearInterval :: "nat \<Rightarrow> chargepoint \<Rightarrow> chargepoint" where
  "clearInterval h s = emit (ClearInterval h) (s\<lparr>intervals := (intervals s)(h := None)\<rparr>)"

text \<open>\<^verbatim>\<open>period * 1000\<close>. The operand is converted to a number; the product with \<^verbatim>\<open>NaN\<close>
  is \<^verbatim>\<open>NaN\<close>. The product of two doubles is the exact product rounded to a double, and
  every integer up to \<open>2^53\<close> in magnitude is a double: up to there the product is the
  integer product. A larger product is rounded, which is \<open>Unmodelled\<close>.\<close>

definition js_times_1000 :: "jsval \<Rightarrow> error + jsval" where
  "js_times_1000 period =
     bind_error (js_to_number period)
       (\<lambda>n. case n of
               JNum i \<Rightarrow>
                 if \<bar>i\<bar> * 1000 \<le> 2 ^ 53 then Inr (JNum (i * 1000)) else Inl Unmodelled
             | _ \<Rightarrow> Inr JNaN)"

definition setHeartbeat :: "ocpp_constants \<Rightarrow> jsval \<Rightarrow> chargepoint \<Rightarrow> outcome" where
  "setHeartbeat ocpp period s =
     (case js_to_string period of
        Inl e \<Rightarrow> Throws e s
      | Inr period_text \<Rightarrow>
          (let s1 = logMsg (''Setting heartbeat period to '' @ period_text @ ''s'') s;
               s2 = (case heartbeat s1 of
                       None \<Rightarrow> s1
                     | Some h \<Rightarrow> if h \<noteq> 0 then clearInterval h s1 else s1)
           in case js_times_1000 period of
                Inl e \<Rightarrow> Throws e s2
              | Inr delay \<Rightarrow>
                  (let (h, s3) = setInterval SendHeartbeat delay s2
                   in Returns (s3\<lparr>heartbeat := Some h\<rparr>))))"

subsection \<open>Results and errors from the server\<close>

definition wsDisconnect :: "ocpp_constants \<Rightarrow> chargepoint \<Rightarrow> chargepoint" where
  "wsDisconnect ocpp s =
     (let s1 = (if websocket s then emit (WsClose 3001) s else s)
      in setStatus ocpp (CP_DISCONNECTED ocpp) [] s1)"

definition handleCallResult :: "ocpp_constants \<Rightarrow> jsval \<Rightarrow> chargepoint \<Rightarrow> outcome" where
  "handleCallResult ocpp payload s =
     (let la = getLastAction s in
      if la = BOOT_NOTIFICATION ocpp then
        (case bind_error (js_get payload ''status'') (\<lambda>st. js_loose_eq_word st ''Accepted'') of
           Inl e \<Rightarrow> Throws e s
         | Inr accepted \<Rightarrow>
             if accepted then
               (let s1 = logMsg ''Connection accepted'' s in
                case js_get payload ''interval'' of
                  Inl e \<Rightarrow> Throws e s1
                | Inr hb_interval \<Rightarrow>
                    (case setHeartbeat ocpp hb_interval s1 of
                       Throws e s2 \<Rightarrow> Throws e s2
                     | Returns s2 \<Rightarrow> Returns (setStatus ocpp (CP_CONNECTED ocpp) [] s2)))
             else Returns (wsDisconnect ocpp (logMsg ''Connection refused by server'' s)))
      else if la = AUTHORIZE ocpp then
        (case bind_error (js_get payload ''idTagInfo'') (\<lambda>idTagInfo.
              bind_error (js_get idTagInfo ''status'') (\<lambda>st. js_loose_eq_word st ''Invalid'')) of
           Inl e \<Rightarrow> Throws e s
         | Inr invalid \<Rightarrow>
             if invalid then Returns (logMsg ''Authorization failed'' s)
             else Returns (setStatus ocpp (CP_AUTHORIZED ocpp) []
                             (logMsg ''Authorization OK'' s)))
      else if la = START_TRANSACTION ocpp then
        (case js_get payload ''transactionId'' of
           Inl e \<Rightarrow> Throws e s
         | Inr transactionId \<Rightarrow>
             if \<not> js_truthy transactionId then Returns s
             else
               (case js_to_string transactionId of
                  Inl e \<Rightarrow> Throws e s
                | Inr id_text \<Rightarrow>
                    (let s1 = setSessionKey ''TransactionId'' id_text s;
                         s2 = setStatus ocpp (CP_INTRANSACTION ocpp)
                                (''TransactionId: '' @ id_text) s1
                     in Returns (logMsg (''Transaction id is '' @ id_text) s2))))
      else if la = STOP_TRANSACTION ocpp then
        Returns (setConnectorStatus ocpp 1 (CONN_AVAILABLE ocpp) False s)
      else if la = HEARTBEAT ocpp then Returns s
      else if la = METERVALUES ocpp then Returns s
      else if la = STATUSNOTIFICATION ocpp then Returns s
      else
        Returns (logMsg (''NOT IMPLEMENTED in handleCallResult in ocpp_chargepont.js LastAction: ''
                          @ la @ '' payload: '' @ text_or_undefined (JSON_stringify payload)) s))"

definition handleCallError ::
  "ocpp_constants \<Rightarrow> jsval \<Rightarrow> jsval \<Rightarrow> chargepoint \<Rightarrow> outcome" where
  "handleCallError ocpp errCode errMsg s =
     (case bind_error (js_to_string errCode) (\<lambda>code_text.
           bind_error (js_to_string errMsg) (\<lambda>msg_text.
             Inr (''ErrorCode: '' @ code_text @ '' ('' @ msg_text @ '')''))) of
        Inl e \<Rightarrow> Throws e s
      | Inr detail \<Rightarrow> Returns (setStatus ocpp (CP_ERROR ocpp) detail s))"

subsection \<open>Transport: decoding an incoming frame\<close>

text \<open>\<^verbatim>\<open>v[i]\<close> and \<^verbatim>\<open>v.length\<close> of a decoded value, and \<^verbatim>\<open>x > k\<close> for a number \<open>k\<close>
  (a string or an array on the left would first be read as a number, which is not
  modelled).\<close>

fun js_index :: "jsval \<Rightarrow> nat \<Rightarrow> error + jsval" where
  "js_index JUndefined i = Inl TypeError"
| "js_index JNull i = Inl TypeError"
| "js_index (JArr xs) i = Inr (if i < length xs then xs ! i else JUndefined)"
| "js_index (JStr s) i = Inr (if i < length s then JStr [s ! i] else JUndefined)"
| "js_index (JObj kvs) i =
     Inr (case map_of kvs (show_nat i) of None \<Rightarrow> JUndefined | Some v \<Rightarrow> v)"
| "js_index v i = Inr JUndefined"

fun js_array_length :: "jsval \<Rightarrow> jsval" where
  "js_array_length (JStr s) = JNum (int (length s))"
| "js_array_length (JArr xs) = JNum (int (length xs))"
| "js_array_length (JObj kvs) =
     (case map_of kvs ''length'' of None \<Rightarrow> JUndefined | Some v \<Rightarrow> v)"
| "js_array_length v = JUndefined"

fun js_greater :: "jsval \<Rightarrow> int \<Rightarrow> error + bool" where
  "js_greater (JNum i) k = Inr (k < i)"
| "js_greater JNull k = Inr (k < 0)"
| "js_greater (JBool b) k = Inr (k < (if b then 1 else 0))"
| "js_greater (JStr s) k = Inl Unmodelled"
| "js_greater (JArr xs) k = Inl Unmodelled"
| "js_greater v k = Inr False"

text \<open>
  The \<^verbatim>\<open>onmessage\<close> callback parses the frame and switches on its first element. What
  it then does is a call of one handler: \<^verbatim>\<open>handleCallRequest(id, request, payload)\<close>,
  \<^verbatim>\<open>handleCallResult(payload)\<close> or \<^verbatim>\<open>handleCallError(errCode, errMsg)\<close>, or nothing.
\<close>

datatype dispatch =
    CallRequest jsval jsval jsval
  | CallResult jsval
  | CallError jsval jsval
  | Ignored

definition onmessage_dispatch :: "jsval \<Rightarrow> error + dispatch" where
  "onmessage_dispatch ddata =
     bind_error (js_index ddata 0) (\<lambda>msgType.
       if msgType = JNum 2 then
         bind_error (js_index ddata 1) (\<lambda>ident.
         bind_error (js_index ddata 2) (\<lambda>request.
         bind_error (js_greater (js_array_length ddata) 3) (\<lambda>longer.
           if longer
           then bind_error (js_index ddata 3) (\<lambda>payload. Inr (CallRequest ident request payload))
           else Inr (CallRequest ident request JNull))))
       else if msgType = JNum 3 then
         bind_error (js_index ddata 2) (\<lambda>payload. Inr (CallResult payload))
       else if msgType = JNum 4 then
         bind_error (js_index ddata 2) (\<lambda>errCode.
         bind_error (js_index ddata 3) (\<lambda>errMsg. Inr (CallError errCode errMsg)))
       else Inr Ignored)"

definition onmessage_decode :: "string \<Rightarrow> error + dispatch" where
  "onmessage_decode text = bind_error (JSON_parse text) onmessage_dispatch"

subsection \<open>Meter and transactions\<close>

text \<open>\<^verbatim>\<open>parseInt(str)\<close> with no radix: leading white space is skipped, then a sign, then
  the prefix \<^verbatim>\<open>0x\<close> selects base 16; the longest run of digits is read, and the result
  is \<^verbatim>\<open>NaN\<close> (here \<open>None\<close>) when there is none.\<close>

definition parseInt :: "string \<Rightarrow> int option" where
  "parseInt str =
     (let S = dropWhile is_js_space str;
          negative = (S \<noteq> [] \<and> hd S = CHR ''-'');
          S1 = (if S \<noteq> [] \<and> (hd S = CHR ''+'' \<or> hd S = CHR ''-'') then tl S else S);
          hex = (take 2 S1 = ''0x'' \<or> take 2 S1 = ''0X'');
          R = (if hex then 16 else 10);
          S2 = (if hex then drop 2 S1 else S1);
          Z = takeWhile (is_radix_digit R) S2
      in if Z = [] then None
         else if negative then Some (- int (digits_value R Z))
         else Some (int (digits_value R Z)))"

text \<open>A number that may be \<^verbatim>\<open>NaN\<close>, as a value and as text.\<close>

definition number_val :: "int option \<Rightarrow> jsval" where
  "number_val r = (case r of None \<Rightarrow> JNaN | Some i \<Rightarrow> JNum i)"

definition number_text :: "int option \<Rightarrow> string" where
  "number_text r = (case r of None \<Rightarrow> ''NaN'' | Some i \<Rightarrow> number_to_string i)"

definition meterValue :: "ocpp_constants \<Rightarrow> chargepoint \<Rightarrow> int option" where
  "meterValue ocpp s = parseInt (getSessionKey (KEY_METER_VALUE ocpp) ''0'' s)"

text \<open>\<^verbatim>\<open>isEmpty(str)\<close> reads \<^verbatim>\<open>str.length\<close> only when \<^verbatim>\<open>str\<close> is not falsy.\<close>

definition isEmpty :: "jsval \<Rightarrow> bool" where
  "isEmpty str = (\<not> js_truthy str \<or> js_array_length str = JNum 0)"

text \<open>
  An \<^verbatim>\<open>async\<close> method runs until it returns, raises (its promise is rejected) or
  reaches an \<^verbatim>\<open>await\<close> of a timeout. There it leaves the state it has reached, the delay
  in milliseconds, and its continuation, which the timer resumes later in whatever state
  the charge point is in by then (other handlers may have run in between).
\<close>

datatype async =
    Done chargepoint
  | Rejected error chargepoint
  | Await chargepoint nat "chargepoint \<Rightarrow> async"

text \<open>The run in which nothing else happens during the waits.\<close>

primrec run_undisturbed :: "async \<Rightarrow> chargepoint" where
  "run_undisturbed (Done s) = s"
| "run_undisturbed (Rejected e s) = s"
| "run_undisturbed (Await s ms k) = run_undisturbed (k s)"

definition stop_transaction_params ::
  "jsval \<Rightarrow> string \<Rightarrow> int option \<Rightarrow> jsval \<Rightarrow> jsval" where
  "stop_transaction_params transactionId ts mv tagId =
     JObj ([(''transactionId'', transactionId), (''timestamp'', JStr ts),
            (''meterStop'', number_val mv)]
           @ (if \<not> isEmpty tagId then [(''idTag'', tagId)] else []))"

text \<open>The part of \<^verbatim>\<open>stopTransactionWithId\<close> before its first \<^verbatim>\<open>await\<close>. An argument
  \<^verbatim>\<open>tagId\<close> that is \<^verbatim>\<open>undefined\<close> takes the default \<^verbatim>\<open>"DEADBEEF"\<close>.\<close>

definition stopTransactionWithId_start ::
  "ocpp_constants \<Rightarrow> jsval \<Rightarrow> jsval \<Rightarrow> chargepoint \<Rightarrow> outcome" where
  "stopTransactionWithId_start ocpp transactionId tagId_arg s =
     (let tagId = (if tagId_arg = JUndefined then JStr ''DEADBEEF'' else tagId_arg);
          s1 = setLastAction (STOP_TRANSACTION ocpp) s;
          s2 = setStatus ocpp (CP_AUTHORIZED ocpp) [] s1;
          mv = meterValue ocpp s2
      in case js_to_string transactionId of
           Inl e \<Rightarrow> Throws e s2
         | Inr id_text \<Rightarrow>
             (let s3 = logMsg (''Stopping Transaction with id '' @ id_text
                                @ '' (meterValue='' @ number_text mv @ '')'') s2;
                  (ident, s4) = generateId s3;
                  (ts, s5) = utc_now_iso s4;
                  stopParams = stop_transaction_params transactionId ts mv tagId;
                  stpT = json_text (call_frame ident ''StopTransaction'' stopParams)
              in Returns (wsSendData ocpp stpT s5)))"

definition stopTransactionWithId ::
  "ocpp_constants \<Rightarrow> jsval \<Rightarrow> jsval \<Rightarrow> chargepoint \<Rightarrow> async" where
  "stopTransactionWithId ocpp transactionId tagId s =
     (case stopTransactionWithId_start ocpp transactionId tagId s of
        Throws e s' \<Rightarrow> Rejected e s'
      | Returns s' \<Rightarrow>
          Await s' 1000
            (\<lambda>t. Await (setConnectorStatus ocpp 1 (CONN_FINISHING ocpp) True t) 1000
               (\<lambda>u. Done (setConnectorStatus ocpp 1 (CONN_AVAILABLE ocpp) True u))))"

definition stopTransaction :: "ocpp_constants \<Rightarrow> jsval \<Rightarrow> chargepoint \<Rightarrow> async" where
  "stopTransaction ocpp tagId s =
     (let transactionId = number_val (parseInt (getSessionKey ''TransactionId'' [] s))
      in stopTransactionWithId ocpp transactionId tagId s)"

definition authorize :: "ocpp_constants \<Rightarrow> jsval \<Rightarrow> chargepoint \<Rightarrow> outcome" where
  "authorize ocpp tagId s =
     (let s1 = setLastAction ''Authorize'' s
      in case js_to_string tagId of
           Inl e \<Rightarrow> Throws e s1
         | Inr tag_text \<Rightarrow>
             (let s2 = logMsg (''Requesting authorization for tag '' @ tag_text) s1;
                  (ident, s3) = generateId s2;
                  Auth = json_text (call_frame ident ''Authorize'' (JObj [(''idTag'', tagId)]))
              in Returns (wsSendData ocpp Auth s3)))"

section \<open>Reading the trace\<close>

text \<open>The effects of a run from \<open>s\<close> to \<open>s'\<close>, and what they hold of each kind.\<close>

definition new_effects :: "chargepoint \<Rightarrow> chargepoint \<Rightarrow> effect list" where
  "new_effects s s' = drop (length (effects s)) (effects s')"

definition session_writes :: "effect list \<Rightarrow> (string \<times> string) list" where
  "session_writes es = concat (map (\<lambda>e. case e of SessionSet k v \<Rightarrow> [(k, v)] | _ \<Rightarrow> []) es)"

definition ws_sent :: "effect list \<Rightarrow> string list" where
  "ws_sent es = concat (map (\<lambda>e. case e of WsSend d \<Rightarrow> [d] | _ \<Rightarrow> []) es)"

definition console_lines :: "effect list \<Rightarrow> string list" where
  "console_lines es = concat (map (\<lambda>e. case e of ConsoleLog l \<Rightarrow> [l] | _ \<Rightarrow> []) es)"

definition availability_calls :: "effect list \<Rightarrow> (int \<times> string) list" where
  "availability_calls es =
     concat (map (\<lambda>e. case e of AvailabilityChangeCb c a \<Rightarrow> [(c, a)] | _ \<Rightarrow> []) es)"

text \<open>The values written, in order, to the status of connector \<open>c\<close>.\<close>

definition conn_status_writes :: "ocpp_constants \<Rightarrow> int \<Rightarrow> effect list \<Rightarrow> string list" where
  "conn_status_writes ocpp c es =
     map snd (filter (\<lambda>(k, v). k = KEY_CONN_STATUS ocpp @ number_to_string c) (session_writes es))"

text \<open>The storage writes, console lines and socket sends of a trace, in order (observer
  calls and timers left out).\<close>

definition storage_and_wire :: "effect list \<Rightarrow> effect list" where
  "storage_and_wire es =
     filter (\<lambda>e. case e of SessionSet k v \<Rightarrow> True | LocalSet k v \<Rightarrow> True
                  | ConsoleLog l \<Rightarrow> True | WsSend d \<Rightarrow> True | _ \<Rightarrow> False) es"

text \<open>The frames the charge point builds in state \<open>s\<close>: the StopTransaction CALL of
  \<^verbatim>\<open>stopTransactionWithId\<close> (the meter is read after the last action and the status are
  written), and the StatusNotification CALL for connector \<open>c\<close> with status \<open>st\<close>.\<close>

definition meter_at_stop :: "ocpp_constants \<Rightarrow> chargepoint \<Rightarrow> int option" where
  "meter_at_stop ocpp s =
     meterValue ocpp
       (s\<lparr>sessionStorage := (sessionStorage s)
           (''LastAction'' \<mapsto> STOP_TRANSACTION ocpp,
            KEY_CP_STATUS ocpp \<mapsto> CP_AUTHORIZED ocpp)\<rparr>)"


definition stop_transaction_frame ::
  "ocpp_constants \<Rightarrow> jsval \<Rightarrow> jsval \<Rightarrow> chargepoint \<Rightarrow> string" where
  "stop_transaction_frame ocpp transactionId tagId s =
     json_text (call_frame (fst (generateId s)) ''StopTransaction''
       (stop_transaction_params transactionId (fst (utc_now_iso s)) (meter_at_stop ocpp s)
          (if tagId = JUndefined then JStr ''DEADBEEF'' else tagId)))"

definition status_notification_frame :: "int \<Rightarrow> string \<Rightarrow> chargepoint \<Rightarrow> string" where
  "status_notification_frame c st s =
     json_text (status_notification (fst (generateId s)) c st (fst (utc_now_iso s)))"

definition timer_effects :: "effect list \<Rightarrow> effect list" where
  "timer_effects es =
     filter (\<lambda>e. case e of SetInterval h cb d \<Rightarrow> True | ClearInterval h \<Rightarrow> True | _ \<Rightarrow> False) es"

text \<open>\<^verbatim>\<open>setInterval\<close> is called by \<^verbatim>\<open>setHeartbeat\<close> only, which stores the handle in
  \<^verbatim>\<open>this._heartbeat\<close>: in a state the charge point reaches, an active interval timer is
  the one \<^verbatim>\<open>this._heartbeat\<close> holds, and handles are positive.\<close>

definition heartbeat_tracked :: "chargepoint \<Rightarrow> bool" where
  "heartbeat_tracked s = (\<forall>h \<in> dom (intervals s). h \<noteq> 0 \<and> heartbeat s = Some h)"

text \<open>The identifier \<^verbatim>\<open>generateId\<close> builds from the random readings \<open>pos\<close>, \<open>pos + 1\<close>, ...\<close>

fun random_chars :: "(nat \<Rightarrow> nat) \<Rightarrow> nat \<Rightarrow> nat \<Rightarrow> string" where
  "random_chars rnd pos 0 = []"
| "random_chars rnd pos (Suc n) = charAt possible (rnd pos) @ random_chars rnd (Suc pos) n"

section \<open>A sample configuration\<close>

text \<open>
  Constants to run the model on examples: the OCPP 1.6 wire names for actions,
  availabilities and connector statuses, and distinct names for the storage keys and the
  charge-point statuses.
\<close>

definition sample_constants :: ocpp_constants where
  "sample_constants =
     \<lparr>KEY_CP_STATUS = ''cp_status'', KEY_METER_VALUE = ''meter_value'',
      KEY_CONN_STATUS = ''conn_status'', KEY_CONN_AVAILABILITY = ''conn_availability'',
      CP_ERROR = ''error'', CP_DISCONNECTED = ''disconnected'', CP_CONNECTING = ''connecting'',
      CP_CONNECTED = ''connected'', CP_AUTHORIZED = ''authorized'',
      CP_INTRANSACTION = ''in_transaction'',
      CONN_AVAILABLE = ''Available'', CONN_CHARGING = ''Charging'',
      CONN_FINISHING = ''Finishing'', CONN_UNAVAILABLE = ''Unavailable'',
      AVAILABITY_OPERATIVE = ''Operative'', AVAILABITY_INOPERATIVE = ''Inoperative'',
      BOOT_NOTIFICATION = ''BootNotification'', AUTHORIZE = ''Authorize'',
      START_TRANSACTION = ''StartTransaction'', STOP_TRANSACTION = ''StopTransaction'',
      HEARTBEAT = ''Heartbeat'', METERVALUES = ''MeterValues'',
      STATUSNOTIFICATION = ''StatusNotification''\<rparr>"

text \<open>The object the constructor builds, in a browser with empty stores and no timer.\<close>

definition new_ChargePoint :: "(nat \<Rightarrow> string) \<Rightarrow> (nat \<Rightarrow> nat) \<Rightarrow> chargepoint" where
  "new_ChargePoint clk rnd =
     \<lparr>websocket = False, heartbeat = None, statusChangeCb = False,
      availabilityChangeCb = False, loggingCb = False,
      remoteStartStopResponse = ''Accepted'', remoteStartDelaySeconds = 0,
      sessionStorage = Map.empty, localStorage = Map.empty, intervals = Map.empty,
      next_timer = 0, clock = clk, clock_reads = 0, random = rnd, random_reads = 0,
      effects = []\<rparr>"

definition setStatusChangeCallback :: "chargepoint \<Rightarrow> chargepoint" where
  "setStatusChangeCallback s = s\<lparr>statusChangeCb := True\<rparr>"

definition setLoggingCallback :: "chargepoint \<Rightarrow> chargepoint" where
  "setLoggingCallback s = s\<lparr>loggingCb := True\<rparr>"

definition setAvailabilityChangeCallback :: "chargepoint \<Rightarrow> chargepoint" where
  "setAvailabilityChangeCallback s = s\<lparr>availabilityChangeCb := True\<rparr>"

text \<open>A charge point with its three observers registered and its socket open.\<close>

definition sample_chargepoint :: chargepoint where
  "sample_chargepoint =
     (setAvailabilityChangeCallback (setLoggingCallback (setStatusChangeCallback
        (new_ChargePoint (\<lambda>n. ''2023-10-17T08:45:43.774Z'') (\<lambda>n. n)))))\<lparr>websocket := True\<rparr>"

text \<open>The sample charge point, connected, with a CALL of the given action pending.\<close>

definition sample_pending :: "string \<Rightarrow> chargepoint" where
  "sample_pending action =
     setLastAction action (setStatus sample_constants ''connected'' [] sample_chargepoint)"

text \<open>The sample charge point with a heartbeat of 30 seconds running.\<close>

definition sample_heartbeating :: chargepoint where
  "sample_heartbeating =
     state_after (setHeartbeat sample_constants (JNum 30) sample_chargepoint)"

section \<open>Properties\<close>

subsection \<open>Numbers, identifiers and storage keys\<close>

lemma show_nat_small: "n < 10 \<Longrightarrow> show_nat n = [digit_char n]"
  by (simp add: show_nat.simps)

lemma show_nat_nonempty: "show_nat n \<noteq> []"
  by (subst show_nat.simps) simp

lemma last_show_nat: "last (show_nat n) = digit_char (n mod 10)"
  by (subst show_nat.simps) simp

lemma number_to_string_nonempty: "number_to_string c \<noteq> []"
  by (simp add: number_to_string_def show_nat_nonempty)

lemma last_number_to_string: "last (number_to_string c) = digit_char (nat \<bar>c\<bar> mod 10)"
  by (auto simp: number_to_string_def last_show_nat show_nat_nonempty)

lemma number_to_string_0 [simp]: "number_to_string 0 = ''0''"
  and number_to_string_1 [simp]: "number_to_string 1 = ''1''"
  and number_to_string_2 [simp]: "number_to_string 2 = ''2''"
  by (simp_all add: number_to_string_def show_nat_small digit_char_def)

lemma digit_char_is_digit: "d < 10 \<Longrightarrow> digit_char d \<in> set ''0123456789''"
  unfolding digit_char_def by (rule nth_mem) simp

text \<open>A connector key ends with a digit, so it is never the key of the last action.\<close>

lemma conn_key_not_LastAction: "pre @ number_to_string c \<noteq> ''LastAction''"
proof
  assume h: "pre @ number_to_string c = ''LastAction''"
  have "last (pre @ number_to_string c) = last (number_to_string c)"
    by (simp add: number_to_string_nonempty)
  with h have "last (number_to_string c) = CHR ''n''" by simp
  moreover have "digit_char (nat \<bar>c\<bar> mod 10) \<in> set ''0123456789''"
    by (rule digit_char_is_digit) simp
  ultimately show False by (auto simp: last_number_to_string)
qed

lemma generateId_loop_eq:
  "generateId_loop n acc s =
     (acc @ random_chars (random s) (random_reads s) n,
      s\<lparr>random_reads := random_reads s + n\<rparr>)"
  by (induction n arbitrary: acc s) simp_all

lemma generateId_eq:
  "generateId s =
     (random_chars (random s) (random_reads s) 36, s\<lparr>random_reads := random_reads s + 36\<rparr>)"
  by (simp add: generateId_def generateId_loop_eq)

subsection \<open>Traces\<close>

lemma new_effects_append: "effects s' = effects s @ L \<Longrightarrow> new_effects s s' = L"
  by (simp add: new_effects_def)

lemma new_effects_trans:
  assumes "effects s1 = effects s @ L1" and "effects s2 = effects s1 @ L2"
  shows "new_effects s s2 = new_effects s s1 @ new_effects s1 s2"
  using assms by (simp add: new_effects_def)

lemmas trace_defs =
  session_writes_def ws_sent_def console_lines_def availability_calls_def

subsection \<open>Sending\<close>

lemma wsSendData_eq:
  "wsSendData ocpp f s =
     s\<lparr>sessionStorage :=
         (if websocket s then sessionStorage s
          else (sessionStorage s)(KEY_CP_STATUS ocpp \<mapsto> CP_ERROR ocpp)),
       clock_reads := Suc (clock_reads s),
       effects := effects s @ ConsoleLog (outbound_line (clock s (clock_reads s)) f) #
         (if websocket s then [WsSend f]
          else SessionSet (KEY_CP_STATUS ocpp) (CP_ERROR ocpp) #
            (if statusChangeCb s
             then [StatusChangeCb (CP_ERROR ocpp) ''No connection to OCPP server'']
             else []))\<rparr>"
  by (simp add: wsSendData_def utc_now_iso_def setStatus_def setSessionKey_def emit_def Let_def)

lemma sendStatusNotification_eq:
  "sendStatusNotification ocpp c s =
     (let st = connectorStatus ocpp c s;
          frame = json_text (status_notification (fst (generateId s)) c st (fst (utc_now_iso s)))
      in s\<lparr>sessionStorage :=
         (if websocket s then (sessionStorage s)(''LastAction'' \<mapsto> ''StatusNotification'')
          else (sessionStorage s)(''LastAction'' \<mapsto> ''StatusNotification'',
                 KEY_CP_STATUS ocpp \<mapsto> CP_ERROR ocpp)),
       clock_reads := Suc (Suc (clock_reads s)),
       random_reads := random_reads s + 36,
       effects := effects s @ SessionSet ''LastAction'' ''StatusNotification'' #
         (if loggingCb s
          then [LoggingCb (''[OCPP] Sending StatusNotification for connector ''
                  @ number_to_string c @ '': '' @ st)] else []) @
         ConsoleLog (outbound_line (clock s (Suc (clock_reads s))) frame) #
         (if websocket s then [WsSend frame]
          else SessionSet (KEY_CP_STATUS ocpp) (CP_ERROR ocpp) #
            (if statusChangeCb s
             then [StatusChangeCb (CP_ERROR ocpp) ''No connection to OCPP server'']
             else []))\<rparr>)"
  by (simp add: sendStatusNotification_def wsSendData_eq generateId_eq utc_now_iso_def
      setLastAction_def setSessionKey_def emit_def logMsg_def connectorStatus_def Let_def)

lemma setConnectorStatus_True_eq:
  "setConnectorStatus ocpp c st True s =
     sendStatusNotification ocpp c
       (s\<lparr>sessionStorage := (sessionStorage s)(KEY_CONN_STATUS ocpp @ number_to_string c \<mapsto> st),
          effects := effects s @ [SessionSet (KEY_CONN_STATUS ocpp @ number_to_string c) st]\<rparr>)"
  by (simp add: setConnectorStatus_def setSessionKey_def emit_def)

lemma connectorStatus_after_write:
  "connectorStatus ocpp c
     (s\<lparr>sessionStorage := (sessionStorage s)(KEY_CONN_STATUS ocpp @ number_to_string c \<mapsto> st),
        effects := es\<rparr>) = st"
  by (simp add: connectorStatus_def getSessionKey_def)

subsection \<open>Connector availability\<close>

lemmas body_unfold =
  setConnectorAvailability_body_def setConnectorStatus_True_eq sendStatusNotification_eq
  setKey_def emit_def Let_def

lemma setConnectorAvailability_nonzero:
  "c \<noteq> 0 \<Longrightarrow>
   setConnectorAvailability ocpp c X s = setConnectorAvailability_body ocpp c X s"
  by (simp add: setConnectorAvailability.simps [of _ c])

lemma setConnectorAvailability_zero:
  "setConnectorAvailability ocpp 0 X s =
     setConnectorAvailability_body ocpp 2 X
       (setConnectorAvailability_body ocpp 1 X (setConnectorAvailability_body ocpp 0 X s))"
  by (simp add: setConnectorAvailability.simps [of _ 0] setConnectorAvailability_nonzero)

lemma body_operative:
  assumes "X \<noteq> AVAILABITY_INOPERATIVE ocpp"
  shows "setConnectorAvailability_body ocpp c X s =
     s\<lparr>localStorage := (localStorage s)(KEY_CONN_AVAILABILITY ocpp @ number_to_string c \<mapsto> X),
       effects := effects s @ LocalSet (KEY_CONN_AVAILABILITY ocpp @ number_to_string c) X
          # (if availabilityChangeCb s then [AvailabilityChangeCb c X] else [])\<rparr>"
  using assms by (simp add: setConnectorAvailability_body_def setKey_def emit_def Let_def)

lemma body_session_other:
  assumes "k \<noteq> KEY_CP_STATUS ocpp" "k \<noteq> KEY_CONN_STATUS ocpp @ number_to_string c"
    "k \<noteq> ''LastAction''"
  shows "sessionStorage (setConnectorAvailability_body ocpp c X s) k = sessionStorage s k"
  using assms by (simp add: body_unfold)

lemma body_local:
  "localStorage (setConnectorAvailability_body ocpp c X s) =
     (localStorage s)(KEY_CONN_AVAILABILITY ocpp @ number_to_string c \<mapsto> X)"
  by (simp add: body_unfold)

lemma body_effects_prefix:
  "\<exists>L. effects (setConnectorAvailability_body ocpp c X s) = effects s @ L"
  by (simp add: body_unfold)

lemma body_flags:
  "websocket (setConnectorAvailability_body ocpp c X s) = websocket s"
  "availabilityChangeCb (setConnectorAvailability_body ocpp c X s) = availabilityChangeCb s"
  by (simp_all add: body_unfold)

lemma body_availability_calls:
  "availability_calls (new_effects s (setConnectorAvailability_body ocpp c X s)) =
     (if availabilityChangeCb s then [(c, X)] else [])"
  by (auto simp add: body_unfold new_effects_def availability_calls_def)

lemma body_inoperative:
  assumes "KEY_CP_STATUS ocpp \<noteq> KEY_CONN_STATUS ocpp @ number_to_string c"
  shows "let s' = setConnectorAvailability_body ocpp c (AVAILABITY_INOPERATIVE ocpp) s;
             frame = json_text (status_notification (fst (generateId s)) c
                       (CONN_UNAVAILABLE ocpp) (fst (utc_now_iso s)))
         in connectorStatus ocpp c s' = CONN_UNAVAILABLE ocpp
          \<and> ConsoleLog (outbound_line (clock s (Suc (clock_reads s))) frame)
              \<in> set (new_effects s s')
          \<and> (websocket s \<longrightarrow> WsSend frame \<in> set (new_effects s s'))"
  using assms conn_key_not_LastAction[of "KEY_CONN_STATUS ocpp" c]
  by (simp add: body_unfold connectorStatus_after_write new_effects_def
      generateId_eq utc_now_iso_def)
     (simp add: connectorStatus_def getSessionKey_def)

text \<open>
  Claim C2. For every connector id \<open>c\<close> and every prior state, the call
  \<^verbatim>\<open>setConnectorAvailability(c, Operative)\<close> leaves \<^verbatim>\<open>connectorStatus(c)\<close> as it was: session
  storage is not written at all, and no frame reaches \<^verbatim>\<open>wsSendData\<close> (no console line, no
  socket send), so no StatusNotification is emitted. Both branches test for Inoperative;
  the only thing asked of the constants is that Operative is not Inoperative.
\<close>

theorem setConnectorAvailability_operative_keeps_status:
  assumes "AVAILABITY_OPERATIVE ocpp \<noteq> AVAILABITY_INOPERATIVE ocpp"
  shows "let s' = setConnectorAvailability ocpp c (AVAILABITY_OPERATIVE ocpp) s
         in connectorStatus ocpp c s' = connectorStatus ocpp c s
          \<and> sessionStorage s' = sessionStorage s
          \<and> session_writes (new_effects s s') = []
          \<and> console_lines (new_effects s s') = []
          \<and> ws_sent (new_effects s s') = []"
  using assms
  by (cases "c = 0")
     (auto simp add: setConnectorAvailability_zero setConnectorAvailability_nonzero
       body_operative Let_def connectorStatus_def getSessionKey_def trace_defs new_effects_def)

theorem setConnectorAvailability_operative_keeps_status_witness:
  "AVAILABITY_OPERATIVE sample_constants \<noteq> AVAILABITY_INOPERATIVE sample_constants
   \<and> (let s' = setConnectorAvailability sample_constants 0
                  (AVAILABITY_OPERATIVE sample_constants) sample_chargepoint
      in connectorStatus sample_constants 0 s' = connectorStatus sample_constants 0 sample_chargepoint
       \<and> sessionStorage s' = sessionStorage sample_chargepoint
       \<and> session_writes (new_effects sample_chargepoint s') = []
       \<and> console_lines (new_effects sample_chargepoint s') = []
       \<and> ws_sent (new_effects sample_chargepoint s') = [])"
  using setConnectorAvailability_operative_keeps_status [of sample_constants 0 sample_chargepoint]
  by (simp add: sample_constants_def)

text \<open>After \<^verbatim>\<open>setConnectorAvailability(c, Inoperative)\<close> the status of connector \<open>c\<close> is
  Unavailable and the frame \<^verbatim>\<open>sendStatusNotification\<close> builds for it has been handed to
  \<^verbatim>\<open>wsSendData\<close>.\<close>

lemma setConnectorAvailability_inoperative_frame:
  assumes "KEY_CP_STATUS ocpp \<noteq> KEY_CONN_STATUS ocpp @ number_to_string c"
  shows "let s' = setConnectorAvailability ocpp c (AVAILABITY_INOPERATIVE ocpp) s;
             frame = json_text (status_notification (fst (generateId s)) c
                       (CONN_UNAVAILABLE ocpp) (fst (utc_now_iso s)))
         in connectorStatus ocpp c s' = CONN_UNAVAILABLE ocpp
          \<and> ConsoleLog (outbound_line (clock s (Suc (clock_reads s))) frame)
              \<in> set (new_effects s s')
          \<and> (websocket s \<longrightarrow> WsSend frame \<in> set (new_effects s s'))"
proof (cases "c = 0")
  case False
  then show ?thesis
    using body_inoperative [OF assms, of s]
    by (simp add: setConnectorAvailability_nonzero)
next
  case True
  let ?X = "AVAILABITY_INOPERATIVE ocpp"
  let ?s0 = "setConnectorAvailability_body ocpp 0 ?X s"
  let ?s1 = "setConnectorAvailability_body ocpp 1 ?X ?s0"
  let ?s2 = "setConnectorAvailability_body ocpp 2 ?X ?s1"
  let ?k = "KEY_CONN_STATUS ocpp @ ''0''"
  from assms True have k: "?k \<noteq> KEY_CP_STATUS ocpp" by auto
  have kl: "?k \<noteq> ''LastAction''"
    using conn_key_not_LastAction [of "KEY_CONN_STATUS ocpp" 0] by simp
  have "sessionStorage ?s2 ?k = sessionStorage ?s1 ?k"
    using k kl by (intro body_session_other) simp_all
  also have "\<dots> = sessionStorage ?s0 ?k"
    using k kl by (intro body_session_other) simp_all
  finally have st: "connectorStatus ocpp 0 ?s2 = connectorStatus ocpp 0 ?s0"
    by (simp add: connectorStatus_def getSessionKey_def)
  obtain L0 where L0: "effects ?s0 = effects s @ L0"
    using body_effects_prefix by blast
  obtain L1 where L1: "effects ?s1 = effects ?s0 @ L1"
    using body_effects_prefix by blast
  obtain L2 where L2: "effects ?s2 = effects ?s1 @ L2"
    using body_effects_prefix by blast
  have sub: "set (new_effects s ?s0) \<subseteq> set (new_effects s ?s2)"
    using L0 L1 L2 by (simp add: new_effects_def)
  show ?thesis
    using body_inoperative [OF assms, of s] st sub True
    by (auto simp add: setConnectorAvailability_zero Let_def)
qed

text \<open>
  Claim C6. For every availability value \<open>X\<close> (a non-empty name), after
  \<^verbatim>\<open>setConnectorAvailability(0, X)\<close> the persisted availabilities of connectors 1 and 2 are
  both \<open>X\<close>.
\<close>

theorem setConnectorAvailability_zero_cascades:
  assumes "X \<noteq> []"
  shows "let s' = setConnectorAvailability ocpp 0 X s
         in availability ocpp 1 s' = X \<and> availability ocpp 2 s' = X"
  using assms
  by (simp add: setConnectorAvailability_zero availability_def getKey_def body_local)

theorem setConnectorAvailability_zero_cascades_witness:
  "''Inoperative'' \<noteq> []
   \<and> (let s' = setConnectorAvailability sample_constants 0 ''Inoperative'' sample_chargepoint
      in availability sample_constants 1 s' = ''Inoperative''
       \<and> availability sample_constants 2 s' = ''Inoperative'')"
  using setConnectorAvailability_zero_cascades [of "''Inoperative''" sample_constants sample_chargepoint]
  by simp

text \<open>
  Claim C10. For every availability value \<open>X\<close>, a registered availability-change observer
  is called exactly three times by \<^verbatim>\<open>setConnectorAvailability(0, X)\<close>, with \<open>(0, X)\<close>, then
  \<open>(1, X)\<close>, then \<open>(2, X)\<close>: the recursion started by connector 0 stops at connectors 1
  and 2.
\<close>

theorem setConnectorAvailability_zero_observer_calls:
  assumes "availabilityChangeCb s"
  shows "availability_calls (new_effects s (setConnectorAvailability ocpp 0 X s)) =
           [(0, X), (1, X), (2, X)]"
proof -
  let ?s0 = "setConnectorAvailability_body ocpp 0 X s"
  let ?s1 = "setConnectorAvailability_body ocpp 1 X ?s0"
  let ?s2 = "setConnectorAvailability_body ocpp 2 X ?s1"
  obtain L0 where L0: "effects ?s0 = effects s @ L0"
    using body_effects_prefix by blast
  obtain L1 where L1: "effects ?s1 = effects ?s0 @ L1"
    using body_effects_prefix by blast
  obtain L2 where L2: "effects ?s2 = effects ?s1 @ L2"
    using body_effects_prefix by blast
  have "new_effects s ?s2 = new_effects s ?s0 @ new_effects ?s0 ?s1 @ new_effects ?s1 ?s2"
    using L0 L1 L2 by (simp add: new_effects_def)
  then have "availability_calls (new_effects s ?s2) =
      availability_calls (new_effects s ?s0) @ availability_calls (new_effects ?s0 ?s1)
      @ availability_calls (new_effects ?s1 ?s2)"
    by (simp add: availability_calls_def)
  then show ?thesis
    using assms by (simp add: body_availability_calls body_flags setConnectorAvailability_zero)
qed

theorem setConnectorAvailability_zero_observer_calls_witness:
  "availabilityChangeCb sample_chargepoint
   \<and> availability_calls (new_effects sample_chargepoint
        (setConnectorAvailability sample_constants 0 ''Operative'' sample_chargepoint)) =
      [(0, ''Operative''), (1, ''Operative''), (2, ''Operative'')]"
proof -
  have cb: "availabilityChangeCb sample_chargepoint"
    by (simp add: sample_chargepoint_def setAvailabilityChangeCallback_def)
  show ?thesis
    using setConnectorAvailability_zero_observer_calls [OF cb, of sample_constants "''Operative''"] cb
    by simp
qed

subsection \<open>Results from the server\<close>

lemmas sample_defs =
  sample_constants_def sample_chargepoint_def sample_pending_def new_ChargePoint_def
  setStatusChangeCallback_def setLoggingCallback_def setAvailabilityChangeCallback_def

lemmas storage_defs =
  setLastAction_def getLastAction_def setStatus_def status_def setSessionKey_def
  getSessionKey_def logMsg_def emit_def

text \<open>
  Claim C3, as amended. While the pending action is StartTransaction: if the result
  payload carries a \<^verbatim>\<open>transactionId\<close> that JavaScript treats as true (a non-zero number, a
  non-empty string; its conversion to a string must not raise), the text of that id is
  persisted under \<^verbatim>\<open>TransactionId\<close> and the charge-point status becomes InTransaction; if
  the payload carries no \<^verbatim>\<open>transactionId\<close>, the handler returns with the state unchanged.
  StartTransaction must differ from the actions tested before it, and the status key
  from \<^verbatim>\<open>TransactionId\<close>.
\<close>

theorem handleCallResult_start_transaction:
  assumes "getLastAction s = START_TRANSACTION ocpp"
    and "START_TRANSACTION ocpp \<noteq> BOOT_NOTIFICATION ocpp"
    and "START_TRANSACTION ocpp \<noteq> AUTHORIZE ocpp"
    and "KEY_CP_STATUS ocpp \<noteq> ''TransactionId''"
    and "js_get payload ''transactionId'' = Inr tid"
    and "js_to_string tid = Inr id_text"
  shows "(js_truthy tid \<longrightarrow>
           (\<exists>s'. handleCallResult ocpp payload s = Returns s'
              \<and> sessionStorage s' ''TransactionId'' = Some id_text
              \<and> getSessionKey ''TransactionId'' [] s' = id_text
              \<and> status ocpp s' = CP_INTRANSACTION ocpp))
       \<and> (tid = JUndefined \<longrightarrow> handleCallResult ocpp payload s = Returns s)"
  using assms
  by (auto simp add: handleCallResult_def Let_def storage_defs)

theorem handleCallResult_start_transaction_witness:
  "js_truthy (JNum 42)
   \<and> (\<exists>s'. handleCallResult sample_constants (JObj [(''transactionId'', JNum 42)])
             (sample_pending ''StartTransaction'') = Returns s'
        \<and> sessionStorage s' ''TransactionId'' = Some ''42''
        \<and> getSessionKey ''TransactionId'' [] s' = ''42''
        \<and> status sample_constants s' = CP_INTRANSACTION sample_constants)
   \<and> handleCallResult sample_constants (JObj []) (sample_pending ''StartTransaction'')
       = Returns (sample_pending ''StartTransaction'')"
proof -
  have la: "getLastAction (sample_pending ''StartTransaction'')
              = START_TRANSACTION sample_constants"
    by (simp add: sample_defs storage_defs)
  have d: "START_TRANSACTION sample_constants \<noteq> BOOT_NOTIFICATION sample_constants"
      "START_TRANSACTION sample_constants \<noteq> AUTHORIZE sample_constants"
      "KEY_CP_STATUS sample_constants \<noteq> ''TransactionId''"
    by (simp_all add: sample_constants_def)
  have g1: "js_get (JObj [(''transactionId'', JNum 42)]) ''transactionId'' = Inr (JNum 42)"
    by simp
  have t1: "js_to_string (JNum 42) = Inr ''42''"
    by (simp add: number_to_string_def show_nat.simps digit_char_def)
  have g2: "js_get (JObj []) ''transactionId'' = Inr JUndefined"
    by simp
  have t2: "js_to_string JUndefined = Inr ''undefined''"
    by simp
  show ?thesis
    using handleCallResult_start_transaction [OF la d g1 t1]
      handleCallResult_start_transaction [OF la d g2 t2]
    by simp
qed

text \<open>
  Claim C3 as stated fails: a result whose \<^verbatim>\<open>transactionId\<close> is 0 carries a transaction
  id, and the handler returns with nothing persisted and the status as it was.
\<close>

theorem handleCallResult_start_transaction_zero_id:
  "js_get (JObj [(''transactionId'', JNum 0)]) ''transactionId'' = Inr (JNum 0)
   \<and> getLastAction (sample_pending ''StartTransaction'') = START_TRANSACTION sample_constants
   \<and> handleCallResult sample_constants (JObj [(''transactionId'', JNum 0)])
        (sample_pending ''StartTransaction'') = Returns (sample_pending ''StartTransaction'')
   \<and> sessionStorage (sample_pending ''StartTransaction'') ''TransactionId'' = None
   \<and> status sample_constants (sample_pending ''StartTransaction'')
       \<noteq> CP_INTRANSACTION sample_constants"
  by (simp add: handleCallResult_def sample_defs storage_defs Let_def)

text \<open>
  Claim C4, as amended. While the pending action is Authorize, and the payload has an
  \<^verbatim>\<open>idTagInfo\<close> with a \<^verbatim>\<open>status\<close> (whose comparison with \<^verbatim>\<open>'Invalid'\<close> does not raise, as
  for every string): the charge-point status is set to Authorized if and only if that
  status is not \<^verbatim>\<open>'Invalid'\<close>; for an Invalid result session storage, and with it the
  charge-point status, is left unchanged.
\<close>

theorem handleCallResult_authorize:
  assumes "getLastAction s = AUTHORIZE ocpp"
    and "AUTHORIZE ocpp \<noteq> BOOT_NOTIFICATION ocpp"
    and "js_get payload ''idTagInfo'' = Inr idTagInfo"
    and "js_get idTagInfo ''status'' = Inr st"
    and "js_loose_eq_word st ''Invalid'' = Inr invalid"
  shows "\<exists>s'. handleCallResult ocpp payload s = Returns s'
      \<and> (if invalid
          then session_writes (new_effects s s') = [] \<and> sessionStorage s' = sessionStorage s
               \<and> status ocpp s' = status ocpp s
          else session_writes (new_effects s s') = [(KEY_CP_STATUS ocpp, CP_AUTHORIZED ocpp)]
               \<and> status ocpp s' = CP_AUTHORIZED ocpp)"
  using assms
  by (auto simp add: handleCallResult_def Let_def storage_defs new_effects_def
      session_writes_def bind_error_def)

theorem handleCallResult_authorize_witness:
  "(\<exists>s'. handleCallResult sample_constants
            (JObj [(''idTagInfo'', JObj [(''status'', JStr ''Accepted'')])])
            (sample_pending ''Authorize'') = Returns s'
        \<and> session_writes (new_effects (sample_pending ''Authorize'') s')
            = [(KEY_CP_STATUS sample_constants, CP_AUTHORIZED sample_constants)]
        \<and> status sample_constants s' = CP_AUTHORIZED sample_constants)
   \<and> (\<exists>s'. handleCallResult sample_constants
            (JObj [(''idTagInfo'', JObj [(''status'', JStr ''Invalid'')])])
            (sample_pending ''Authorize'') = Returns s'
        \<and> session_writes (new_effects (sample_pending ''Authorize'') s') = []
        \<and> sessionStorage s' = sessionStorage (sample_pending ''Authorize'')
        \<and> status sample_constants s' = status sample_constants (sample_pending ''Authorize''))"
proof -
  have la: "getLastAction (sample_pending ''Authorize'') = AUTHORIZE sample_constants"
    by (simp add: sample_defs storage_defs)
  have d: "AUTHORIZE sample_constants \<noteq> BOOT_NOTIFICATION sample_constants"
    by (simp add: sample_constants_def)
  have g: "js_get (JObj [(''idTagInfo'', JObj [(''status'', JStr w)])]) ''idTagInfo''
             = Inr (JObj [(''status'', JStr w)])"
      "js_get (JObj [(''status'', JStr w)]) ''status'' = Inr (JStr w)" for w
    by simp_all
  have a: "js_loose_eq_word (JStr ''Accepted'') ''Invalid'' = Inr False"
    and i: "js_loose_eq_word (JStr ''Invalid'') ''Invalid'' = Inr True"
    by simp_all
  show ?thesis
    using handleCallResult_authorize [OF la d g a] handleCallResult_authorize [OF la d g i]
    by simp
qed

text \<open>
  Claim C4 as stated fails: a result whose status is \<^verbatim>\<open>Blocked\<close> is not accepted, and
  the charge-point status, \<^verbatim>\<open>connected\<close> before, is Authorized after it.
\<close>

theorem handleCallResult_authorize_blocked:
  "getLastAction (sample_pending ''Authorize'') = AUTHORIZE sample_constants
   \<and> status sample_constants (sample_pending ''Authorize'') = ''connected''
   \<and> ''Blocked'' \<noteq> ''Accepted''
   \<and> (case handleCallResult sample_constants
              (JObj [(''idTagInfo'', JObj [(''status'', JStr ''Blocked'')])])
              (sample_pending ''Authorize'') of
         Returns s' \<Rightarrow> status sample_constants s' = CP_AUTHORIZED sample_constants
       | Throws e s' \<Rightarrow> False)
   \<and> CP_AUTHORIZED sample_constants \<noteq> ''connected''"
  by (simp add: handleCallResult_def sample_defs storage_defs Let_def bind_error_def)

subsection \<open>Heartbeat\<close>

lemma tracked_cleared:
  assumes "heartbeat_tracked s"
  shows "(case heartbeat s of None \<Rightarrow> intervals s
          | Some h \<Rightarrow> if h \<noteq> 0 then (intervals s)(h := None) else intervals s) = Map.empty"
proof (rule ext)
  fix x
  show "(case heartbeat s of None \<Rightarrow> intervals s
          | Some h \<Rightarrow> if h \<noteq> 0 then (intervals s)(h := None) else intervals s) x = None"
    using assms unfolding heartbeat_tracked_def
    by (cases "intervals s x") (fastforce split: option.splits simp: dom_def)+
qed

text \<open>The delay of a period that is not a number: a string or an array is read as a
  number first, and a product beyond \<open>2^53\<close> is left out.\<close>

lemma js_times_1000_string: "js_times_1000 (JStr ''30'') = Inr (JNum 30000)"
  by code_simp

lemma js_times_1000_array: "js_times_1000 (JArr [JStr ''7'']) = Inr (JNum 7000)"
  by code_simp

lemma js_times_1000_word: "js_times_1000 (JStr ''soon'') = Inr JNaN"
  by code_simp

lemma js_times_1000_large: "js_times_1000 (JNum (2 ^ 53 - 1)) = Inl Unmodelled"
  by code_simp

lemma setHeartbeat_num:
  assumes "\<bar>n\<bar> * 1000 \<le> 2 ^ 53"
  shows "setHeartbeat ocpp (JNum n) s =
     Returns ((case heartbeat s of
             None \<Rightarrow> logMsg (''Setting heartbeat period to '' @ number_to_string n @ ''s'') s
           | Some h \<Rightarrow>
               if h \<noteq> 0
               then clearInterval h
                      (logMsg (''Setting heartbeat period to '' @ number_to_string n @ ''s'') s)
               else logMsg (''Setting heartbeat period to '' @ number_to_string n @ ''s'') s)
        \<lparr>intervals :=
           (case heartbeat s of None \<Rightarrow> intervals s
            | Some h \<Rightarrow> if h \<noteq> 0 then (intervals s)(h := None) else intervals s)
           (Suc (next_timer s) \<mapsto> (SendHeartbeat, JNum (n * 1000))),
         next_timer := Suc (next_timer s),
         effects := effects s
           @ (if loggingCb s
              then [LoggingCb (''[OCPP] Setting heartbeat period to '' @ number_to_string n
                      @ ''s'')]
              else [])
           @ (case heartbeat s of None \<Rightarrow> []
              | Some h \<Rightarrow> if h \<noteq> 0 then [ClearInterval h] else [])
           @ [SetInterval (Suc (next_timer s)) SendHeartbeat (JNum (n * 1000))],
         heartbeat := Some (Suc (next_timer s))\<rparr>)"
  using assms
  by (simp add: setHeartbeat_def js_times_1000_def bind_error_def setInterval_def
      clearInterval_def logMsg_def emit_def Let_def split: option.splits)

lemma setHeartbeat_tracked:
  assumes "heartbeat_tracked s" and "\<bar>n\<bar> * 1000 \<le> 2 ^ 53"
    and "setHeartbeat ocpp (JNum n) s = Returns s1"
  shows "heartbeat_tracked s1"
  using assms(1,3) tracked_cleared [OF assms(1)]
  by (auto simp add: setHeartbeat_num [OF assms(2)] heartbeat_tracked_def)

text \<open>
  Claim C9. For every period \<open>n\<close> whose product \<open>n * 1000\<close> is at most \<open>2^53\<close> in magnitude
  (the products a double holds exactly), in a state where the only interval timer that
  can be active is the tracked heartbeat, two calls of \<^verbatim>\<open>setHeartbeat(n)\<close> in succession
  leave exactly one active interval timer, the heartbeat with a delay of \<open>n * 1000\<close>
  milliseconds: one timer is active after the first call, and the second call clears
  that timer before it installs its own.
\<close>

theorem setHeartbeat_twice_one_timer:
  assumes "heartbeat_tracked s" and "\<bar>n\<bar> * 1000 \<le> 2 ^ 53"
  shows "\<exists>s1 s2. setHeartbeat ocpp (JNum n) s = Returns s1
     \<and> setHeartbeat ocpp (JNum n) s1 = Returns s2
     \<and> intervals s1 = [Suc (next_timer s) \<mapsto> (SendHeartbeat, JNum (n * 1000))]
     \<and> heartbeat s1 = Some (Suc (next_timer s))
     \<and> timer_effects (new_effects s1 s2) =
         [ClearInterval (Suc (next_timer s)),
          SetInterval (Suc (Suc (next_timer s))) SendHeartbeat (JNum (n * 1000))]
     \<and> intervals s2 = [Suc (Suc (next_timer s)) \<mapsto> (SendHeartbeat, JNum (n * 1000))]
     \<and> heartbeat s2 = Some (Suc (Suc (next_timer s)))"
  using tracked_cleared [OF assms(1)]
  by (simp add: setHeartbeat_num [OF assms(2)] new_effects_def timer_effects_def)

theorem setHeartbeat_twice_one_timer_witness:
  "heartbeat_tracked sample_heartbeating \<and> \<bar>60 :: int\<bar> * 1000 \<le> 2 ^ 53
   \<and> (\<exists>s1 s2. setHeartbeat sample_constants (JNum 60) sample_heartbeating = Returns s1
     \<and> setHeartbeat sample_constants (JNum 60) s1 = Returns s2
     \<and> intervals s1 = [Suc (next_timer sample_heartbeating) \<mapsto> (SendHeartbeat, JNum (60 * 1000))]
     \<and> heartbeat s1 = Some (Suc (next_timer sample_heartbeating))
     \<and> timer_effects (new_effects s1 s2) =
         [ClearInterval (Suc (next_timer sample_heartbeating)),
          SetInterval (Suc (Suc (next_timer sample_heartbeating))) SendHeartbeat
            (JNum (60 * 1000))]
     \<and> intervals s2 =
         [Suc (Suc (next_timer sample_heartbeating)) \<mapsto> (SendHeartbeat, JNum (60 * 1000))]
     \<and> heartbeat s2 = Some (Suc (Suc (next_timer sample_heartbeating))))"
proof -
  have t: "heartbeat_tracked sample_heartbeating"
    by (simp add: sample_heartbeating_def setHeartbeat_num heartbeat_tracked_def sample_defs
        state_after_def)
  show ?thesis
    using setHeartbeat_twice_one_timer [OF t, of 60 sample_constants] t
    by simp
qed

subsection \<open>Stopping a transaction\<close>

lemma meterValue_effects [simp]: "meterValue ocpp (s\<lparr>effects := es\<rparr>) = meterValue ocpp s"
  by (simp add: meterValue_def getSessionKey_def)

lemma setStatus_eq:
  "setStatus ocpp st msg s =
     s\<lparr>sessionStorage := (sessionStorage s)(KEY_CP_STATUS ocpp \<mapsto> st),
       effects := effects s @ SessionSet (KEY_CP_STATUS ocpp) st #
          (if statusChangeCb s then [StatusChangeCb st msg] else [])\<rparr>"
  by (simp add: setStatus_def setSessionKey_def emit_def Let_def)

lemma setLastAction_eq:
  "setLastAction a s =
     s\<lparr>sessionStorage := (sessionStorage s)(''LastAction'' \<mapsto> a),
       effects := effects s @ [SessionSet ''LastAction'' a]\<rparr>"
  by (simp add: setLastAction_def setSessionKey_def emit_def)

lemma logMsg_eq:
  "logMsg msg s =
     s\<lparr>effects := effects s @ (if loggingCb s then [LoggingCb (''[OCPP] '' @ msg)] else [])\<rparr>"
  by (simp add: logMsg_def emit_def)

lemma stop_start_returns:
  assumes "js_to_string transactionId = Inr id_text"
  shows "stopTransactionWithId_start ocpp transactionId tagId s =
           Returns (state_after (stopTransactionWithId_start ocpp transactionId tagId s))"
  using assms
  by (simp add: stopTransactionWithId_start_def Let_def state_after_def split: prod.splits)

lemma stop_start_effects:
  assumes "js_to_string transactionId = Inr id_text"
  shows "effects (state_after (stopTransactionWithId_start ocpp transactionId tagId s)) =
     effects s @
     [SessionSet ''LastAction'' (STOP_TRANSACTION ocpp),
      SessionSet (KEY_CP_STATUS ocpp) (CP_AUTHORIZED ocpp)]
     @ (if statusChangeCb s then [StatusChangeCb (CP_AUTHORIZED ocpp) []] else [])
     @ (if loggingCb s
        then [LoggingCb (''[OCPP] '' @ ''Stopping Transaction with id '' @ id_text
                @ '' (meterValue='' @ number_text (meter_at_stop ocpp s) @ '')'')]
        else [])
     @ [ConsoleLog (outbound_line (clock s (Suc (clock_reads s)))
                      (stop_transaction_frame ocpp transactionId tagId s))]
     @ (if websocket s then [WsSend (stop_transaction_frame ocpp transactionId tagId s)]
        else SessionSet (KEY_CP_STATUS ocpp) (CP_ERROR ocpp) #
          (if statusChangeCb s
           then [StatusChangeCb (CP_ERROR ocpp) ''No connection to OCPP server'']
           else []))"
  using assms
  unfolding stopTransactionWithId_start_def Let_def setStatus_eq setLastAction_eq logMsg_eq
    wsSendData_eq generateId_eq utc_now_iso_def stop_transaction_frame_def meter_at_stop_def
  by (simp add: state_after_def del: append_Cons)

lemma stop_start_status:
  assumes "js_to_string transactionId = Inr id_text"
  shows "status ocpp (state_after (stopTransactionWithId_start ocpp transactionId tagId s)) =
     (if websocket s then CP_AUTHORIZED ocpp else CP_ERROR ocpp)"
  using assms
  unfolding stopTransactionWithId_start_def Let_def setStatus_eq setLastAction_eq logMsg_eq
    wsSendData_eq generateId_eq utc_now_iso_def
  by (simp add: status_def getSessionKey_def state_after_def del: append_Cons)

lemma setConnectorStatus_True_effects:
  "effects (setConnectorStatus ocpp c st True s) = effects s @
     [SessionSet (KEY_CONN_STATUS ocpp @ number_to_string c) st,
      SessionSet ''LastAction'' ''StatusNotification'']
     @ (if loggingCb s
        then [LoggingCb (''[OCPP] Sending StatusNotification for connector ''
                @ number_to_string c @ '': '' @ st)]
        else [])
     @ [ConsoleLog (outbound_line (clock s (Suc (clock_reads s)))
                      (status_notification_frame c st s))]
     @ (if websocket s then [WsSend (status_notification_frame c st s)]
        else SessionSet (KEY_CP_STATUS ocpp) (CP_ERROR ocpp) #
          (if statusChangeCb s
           then [StatusChangeCb (CP_ERROR ocpp) ''No connection to OCPP server'']
           else []))"
  by (simp add: setConnectorStatus_True_eq sendStatusNotification_eq connectorStatus_after_write
      generateId_eq utc_now_iso_def Let_def status_notification_frame_def)

lemma stop_start_wire:
  assumes "js_to_string transactionId = Inr id_text"
  shows "storage_and_wire
       (new_effects s (state_after (stopTransactionWithId_start ocpp transactionId tagId s))) =
     [SessionSet ''LastAction'' (STOP_TRANSACTION ocpp),
      SessionSet (KEY_CP_STATUS ocpp) (CP_AUTHORIZED ocpp),
      ConsoleLog (outbound_line (clock s (Suc (clock_reads s)))
                    (stop_transaction_frame ocpp transactionId tagId s))]
     @ (if websocket s then [WsSend (stop_transaction_frame ocpp transactionId tagId s)]
        else [SessionSet (KEY_CP_STATUS ocpp) (CP_ERROR ocpp)])"
  by (simp add: new_effects_def stop_start_effects [OF assms] storage_and_wire_def
      del: append_Cons)

lemma stop_start_conn_writes:
  assumes "KEY_CP_STATUS ocpp \<noteq> KEY_CONN_STATUS ocpp @ number_to_string c"
    and "js_to_string transactionId = Inr id_text"
  shows "conn_status_writes ocpp c
           (new_effects s (state_after (stopTransactionWithId_start ocpp transactionId tagId s)))
         = []"
  using assms(1) conn_key_not_LastAction [of "KEY_CONN_STATUS ocpp" c]
  by (simp add: new_effects_def stop_start_effects [OF assms(2)] conn_status_writes_def
      session_writes_def del: append_Cons)

lemma setConnectorStatus_wire:
  "storage_and_wire (new_effects s (setConnectorStatus ocpp c st True s)) =
     [SessionSet (KEY_CONN_STATUS ocpp @ number_to_string c) st,
      SessionSet ''LastAction'' ''StatusNotification'',
      ConsoleLog (outbound_line (clock s (Suc (clock_reads s)))
                    (status_notification_frame c st s))]
     @ (if websocket s then [WsSend (status_notification_frame c st s)]
        else [SessionSet (KEY_CP_STATUS ocpp) (CP_ERROR ocpp)])"
  by (simp add: new_effects_def setConnectorStatus_True_effects storage_and_wire_def
      del: append_Cons)

lemma setConnectorStatus_conn_writes:
  assumes "KEY_CP_STATUS ocpp \<noteq> KEY_CONN_STATUS ocpp @ number_to_string c"
  shows "conn_status_writes ocpp c (new_effects s (setConnectorStatus ocpp c st True s)) = [st]"
  using assms conn_key_not_LastAction [of "KEY_CONN_STATUS ocpp" c]
  by (simp add: new_effects_def setConnectorStatus_True_effects conn_status_writes_def
      session_writes_def del: append_Cons)

lemma setConnectorStatus_effects_prefix:
  "\<exists>L. effects (setConnectorStatus ocpp c st True s) = effects s @ L"
  by (simp add: setConnectorStatus_True_effects del: append_Cons)

lemma stop_start_effects_prefix:
  assumes "js_to_string transactionId = Inr id_text"
  shows "\<exists>L. effects (state_after (stopTransactionWithId_start ocpp transactionId tagId s))
           = effects s @ L"
  by (simp add: stop_start_effects [OF assms] del: append_Cons)

lemma conn_status_writes_append:
  "conn_status_writes ocpp c (xs @ ys)
     = conn_status_writes ocpp c xs @ conn_status_writes ocpp c ys"
  by (simp add: conn_status_writes_def session_writes_def)

text \<open>
  Claim C7. For every \<^verbatim>\<open>transactionId\<close> (a number, or any value whose conversion to a
  string does not raise), \<^verbatim>\<open>stopTransactionWithId\<close> first writes the status Authorized and
  hands the StopTransaction CALL to \<^verbatim>\<open>wsSendData\<close> (console line, then the socket send
  when a socket is open, the error status otherwise), and suspends for 1000 ms without
  having written the status of connector 1. Resumed, in whatever state \<open>t\<close>, it sets
  connector 1 to Finishing, sends the StatusNotification and suspends for 1000 ms again;
  resumed in \<open>u\<close> it sets connector 1 to Available, sends the StatusNotification and
  ends. In the undisturbed run the values written to the status of connector 1 are
  Finishing, then Available. The key of the charge-point status must not be the key of
  connector 1.
\<close>

theorem stopTransactionWithId_order:
  assumes "KEY_CP_STATUS ocpp \<noteq> KEY_CONN_STATUS ocpp @ number_to_string 1"
    and "js_to_string transactionId = Inr id_text"
  shows "\<exists>s1 k1 k2.
      stopTransactionWithId ocpp transactionId tagId s = Await s1 1000 k1
    \<and> storage_and_wire (new_effects s s1) =
         [SessionSet ''LastAction'' (STOP_TRANSACTION ocpp),
          SessionSet (KEY_CP_STATUS ocpp) (CP_AUTHORIZED ocpp),
          ConsoleLog (outbound_line (clock s (Suc (clock_reads s)))
                        (stop_transaction_frame ocpp transactionId tagId s))]
         @ (if websocket s then [WsSend (stop_transaction_frame ocpp transactionId tagId s)]
            else [SessionSet (KEY_CP_STATUS ocpp) (CP_ERROR ocpp)])
    \<and> status ocpp s1 = (if websocket s then CP_AUTHORIZED ocpp else CP_ERROR ocpp)
    \<and> conn_status_writes ocpp 1 (new_effects s s1) = []
    \<and> (\<forall>t. \<exists>t1. k1 t = Await t1 1000 k2
          \<and> storage_and_wire (new_effects t t1) =
              [SessionSet (KEY_CONN_STATUS ocpp @ number_to_string 1) (CONN_FINISHING ocpp),
               SessionSet ''LastAction'' ''StatusNotification'',
               ConsoleLog (outbound_line (clock t (Suc (clock_reads t)))
                             (status_notification_frame 1 (CONN_FINISHING ocpp) t))]
              @ (if websocket t
                 then [WsSend (status_notification_frame 1 (CONN_FINISHING ocpp) t)]
                 else [SessionSet (KEY_CP_STATUS ocpp) (CP_ERROR ocpp)])
          \<and> conn_status_writes ocpp 1 (new_effects t t1) = [CONN_FINISHING ocpp])
    \<and> (\<forall>u. \<exists>u1. k2 u = Done u1
          \<and> storage_and_wire (new_effects u u1) =
              [SessionSet (KEY_CONN_STATUS ocpp @ number_to_string 1) (CONN_AVAILABLE ocpp),
               SessionSet ''LastAction'' ''StatusNotification'',
               ConsoleLog (outbound_line (clock u (Suc (clock_reads u)))
                             (status_notification_frame 1 (CONN_AVAILABLE ocpp) u))]
              @ (if websocket u
                 then [WsSend (status_notification_frame 1 (CONN_AVAILABLE ocpp) u)]
                 else [SessionSet (KEY_CP_STATUS ocpp) (CP_ERROR ocpp)])
          \<and> conn_status_writes ocpp 1 (new_effects u u1) = [CONN_AVAILABLE ocpp])
    \<and> conn_status_writes ocpp 1
         (new_effects s (run_undisturbed (stopTransactionWithId ocpp transactionId tagId s)))
        = [CONN_FINISHING ocpp, CONN_AVAILABLE ocpp]"
proof -
  let ?s1 = "state_after (stopTransactionWithId_start ocpp transactionId tagId s)"
  let ?k2 = "\<lambda>u. Done (setConnectorStatus ocpp 1 (CONN_AVAILABLE ocpp) True u)"
  let ?k1 = "\<lambda>t. Await (setConnectorStatus ocpp 1 (CONN_FINISHING ocpp) True t) 1000 ?k2"
  let ?s2 = "setConnectorStatus ocpp 1 (CONN_FINISHING ocpp) True ?s1"
  let ?s3 = "setConnectorStatus ocpp 1 (CONN_AVAILABLE ocpp) True ?s2"
  note ok = assms(2)
  have start: "stopTransactionWithId ocpp transactionId tagId s = Await ?s1 1000 ?k1"
    using stop_start_returns [OF ok, of ocpp tagId s]
    by (cases "stopTransactionWithId_start ocpp transactionId tagId s")
       (simp_all add: stopTransactionWithId_def state_after_def)
  then have run: "run_undisturbed (stopTransactionWithId ocpp transactionId tagId s) = ?s3"
    by simp
  obtain L1 where L1: "effects ?s1 = effects s @ L1"
    using stop_start_effects_prefix [OF ok] by blast
  obtain L2 where L2: "effects ?s2 = effects ?s1 @ L2"
    using setConnectorStatus_effects_prefix by blast
  obtain L3 where L3: "effects ?s3 = effects ?s2 @ L3"
    using setConnectorStatus_effects_prefix by blast
  have "new_effects s ?s3 = new_effects s ?s1 @ new_effects ?s1 ?s2 @ new_effects ?s2 ?s3"
    using L1 L2 L3 by (simp add: new_effects_def)
  then have whole: "conn_status_writes ocpp 1 (new_effects s ?s3)
      = [CONN_FINISHING ocpp, CONN_AVAILABLE ocpp]"
    using assms(1)
    by (simp add: conn_status_writes_append stop_start_conn_writes [OF _ ok]
        setConnectorStatus_conn_writes)
  from start show ?thesis
    using assms(1) whole run
    by (intro exI [of _ ?s1] exI [of _ ?k1] exI [of _ ?k2])
       (simp add: stop_start_wire [OF ok] stop_start_status [OF ok]
          stop_start_conn_writes [OF _ ok] setConnectorStatus_wire
          setConnectorStatus_conn_writes del: append_Cons)
qed

theorem stopTransactionWithId_order_witness:
  "KEY_CP_STATUS sample_constants \<noteq> KEY_CONN_STATUS sample_constants @ number_to_string 1
   \<and> js_to_string (JNum 42) = Inr ''42''
   \<and> conn_status_writes sample_constants 1
        (new_effects sample_chargepoint
           (run_undisturbed
              (stopTransactionWithId sample_constants (JNum 42) JUndefined sample_chargepoint)))
       = [CONN_FINISHING sample_constants, CONN_AVAILABLE sample_constants]
   \<and> (\<exists>s1 k1. stopTransactionWithId sample_constants (JNum 42) JUndefined sample_chargepoint
                 = Await s1 1000 k1
        \<and> status sample_constants s1 = CP_AUTHORIZED sample_constants
        \<and> conn_status_writes sample_constants 1 (new_effects sample_chargepoint s1) = [])"
proof -
  have k: "KEY_CP_STATUS sample_constants
             \<noteq> KEY_CONN_STATUS sample_constants @ number_to_string 1"
    by (simp add: sample_constants_def)
  have t: "js_to_string (JNum 42) = Inr ''42''"
    by (simp add: number_to_string_def show_nat.simps digit_char_def)
  have w: "websocket sample_chargepoint"
    by (simp add: sample_chargepoint_def)
  show ?thesis
    using stopTransactionWithId_order [OF k t, of JUndefined sample_chargepoint] k t w
    by auto
qed

subsection \<open>Reading back the text of a value\<close>

lemma digit_val_digit_char: "d < 10 \<Longrightarrow> digit_val (digit_char d) = Some d"
  by (auto simp add: less_Suc_eq eval_nat_numeral digit_char_def digit_val_def)

lemma radix_digit_char: "d < 10 \<Longrightarrow> is_radix_digit 10 (digit_char d)"
  by (simp add: is_radix_digit_def digit_val_digit_char)

lemma digit_val_hex_digit: "d < 16 \<Longrightarrow> digit_val (hex_digit d) = Some d"
  by (auto simp add: less_Suc_eq eval_nat_numeral hex_digit_def digit_val_def)

lemma digits_value_snoc:
  "digits_value R (Z @ [c]) = digits_value R Z * R + (case digit_val c of None \<Rightarrow> 0 | Some d \<Rightarrow> d)"
  by (simp add: digits_value_def)

lemma show_nat_digits: "list_all (is_radix_digit 10) (show_nat n)"
proof (induction n rule: show_nat.induct)
  case (1 n)
  then show ?case
    by (subst show_nat.simps) (simp add: radix_digit_char)
qed

lemma digits_value_show_nat: "digits_value 10 (show_nat n) = n"
proof (induction n rule: show_nat.induct)
  case (1 n)
  show ?case
  proof (cases "n < 10")
    case True
    then show ?thesis
      using digits_value_snoc [of 10 "[]" "digit_char n"]
      by (simp add: show_nat_small digit_val_digit_char digits_value_def)
  next
    case False
    with 1 have "digits_value 10 (show_nat (n div 10)) = n div 10" by simp
    with False show ?thesis
      by (subst show_nat.simps) (simp add: digits_value_snoc digit_val_digit_char)
  qed
qed

lemma digit_char_0: "d < 10 \<Longrightarrow> digit_char d = CHR ''0'' \<longleftrightarrow> d = 0"
  by (auto simp add: less_Suc_eq eval_nat_numeral digit_char_def)

lemma hd_show_nat: "0 < n \<Longrightarrow> hd (show_nat n) \<noteq> CHR ''0''"
proof (induction n rule: show_nat.induct)
  case (1 n)
  show ?case
  proof (cases "n < 10")
    case True
    with 1(2) show ?thesis by (simp add: show_nat_small digit_char_0)
  next
    case False
    then have "0 < n div 10" by simp
    with 1 False have "hd (show_nat (n div 10)) \<noteq> CHR ''0''" by simp
    with False show ?thesis
      by (subst show_nat.simps) (simp add: show_nat_nonempty)
  qed
qed

lemma show_nat_no_leading_zero: "\<not> (1 < length (show_nat n) \<and> hd (show_nat n) = CHR ''0'')"
proof (cases "n < 10")
  case True
  then show ?thesis by (simp add: show_nat_small)
next
  case False
  then show ?thesis using hd_show_nat [of n] by simp
qed

lemma hd_show_nat_digit: "is_radix_digit 10 (hd (show_nat n))"
  using show_nat_digits [of n] show_nat_nonempty [of n]
  by (cases "show_nat n") simp_all


lemma follow_ok_cases: "follow_ok rest \<Longrightarrow> rest = [] \<or> (\<exists>c cs. rest = c # cs \<and> (c = CHR '','' \<or> c = CHR '']'' \<or> c = CHR ''}''))"
  by (cases rest) (auto simp: follow_ok_def)

lemma follow_not_digit:
  "follow_ok rest \<Longrightarrow> takeWhile (is_radix_digit 10) rest = [] \<and> dropWhile (is_radix_digit 10) rest = rest"
  by (drule follow_ok_cases) (auto simp: is_radix_digit_def digit_val_def)

lemma takeWhile_digits:
  assumes "list_all P xs" and "takeWhile P rest = []"
  shows "takeWhile P (xs @ rest) = xs"
  using assms by (induction xs) simp_all

lemma dropWhile_digits:
  assumes "list_all P xs" and "dropWhile P rest = rest"
  shows "dropWhile P (xs @ rest) = rest"
  using assms by (induction xs) simp_all

lemma minus_not_digit: "\<not> is_radix_digit 10 (CHR ''-'')"
  by (simp add: is_radix_digit_def digit_val_def)

lemma parse_number_roundtrip:
  assumes "follow_ok rest"
  shows "parse_number (number_to_string i @ rest) = Inr (JNum i, rest)"
proof -
  have tw: "takeWhile (is_radix_digit 10) (show_nat n @ rest) = show_nat n"
    and dw: "dropWhile (is_radix_digit 10) (show_nat n @ rest) = rest" for n
    using follow_not_digit [OF assms] show_nat_digits [of n]
    by (simp_all add: takeWhile_digits dropWhile_digits)
  have nf: "\<not> (rest \<noteq> [] \<and> hd rest \<in> set ''.eE'')"
    using follow_ok_cases [OF assms] by auto
  show ?thesis
  proof (cases "i < 0")
    case True
    then show ?thesis
      using nf show_nat_no_leading_zero [of "nat (- i)"]
      by (simp add: parse_number_def number_to_string_def tw dw show_nat_nonempty
          digits_value_show_nat Let_def)
  next
    case False
    have "hd (show_nat (nat i) @ rest) \<noteq> CHR ''-''"
      using hd_show_nat_digit [of "nat i"] minus_not_digit
      by (auto simp add: show_nat_nonempty)
    with False show ?thesis
      using nf show_nat_no_leading_zero [of "nat i"]
      by (simp add: parse_number_def number_to_string_def tw dw show_nat_nonempty
          digits_value_show_nat Let_def)
  qed
qed

lemma hex4_control:
  assumes "n < 32"
  shows "hex4 [CHR ''0'', CHR ''0'', hex_digit (n div 16), hex_digit (n mod 16)] = Some n"
proof -
  have a: "n div 16 < 16" using assms by simp
  have b: "n mod 16 < 16" by simp
  have z: "digit_val (CHR ''0'') = Some 0" by (simp add: digit_val_def)
  show ?thesis
    using digit_val_hex_digit [OF a] digit_val_hex_digit [OF b] z a
    by (simp add: hex4_def is_radix_digit_def digits_value_def)
qed

lemma parse_chars_escape:
  "parse_chars (json_escape_char c @ rest) = cons_char c (parse_chars rest)"
proof -
  consider (q) "c = CHR 0x22" | (b) "c = CHR 0x5C"
    | (e) "c \<in> {CHR 0x08, CHR 0x0C, CHR 0x0A, CHR 0x0D, CHR 0x09}"
    | (u) "c \<notin> {CHR 0x22, CHR 0x5C, CHR 0x08, CHR 0x0C, CHR 0x0A, CHR 0x0D, CHR 0x09}" "(of_char c :: nat) < 32"
    | (o) "c \<notin> {CHR 0x22, CHR 0x5C, CHR 0x08, CHR 0x0C, CHR 0x0A, CHR 0x0D, CHR 0x09}" "\<not> (of_char c :: nat) < 32"
    by blast
  then show ?thesis
  proof cases
    case q then show ?thesis by (simp add: json_escape_char_def unescape_def)
  next
    case b then show ?thesis by (simp add: json_escape_char_def unescape_def)
  next
    case e then show ?thesis by (auto simp add: json_escape_char_def unescape_def)
  next
    case u
    then show ?thesis
      using hex4_control [of "of_char c"]
      by (simp add: json_escape_char_def)
  next
    case o then show ?thesis by (simp add: json_escape_char_def)
  qed
qed

lemma parse_chars_roundtrip:
  "parse_chars (concat (map json_escape_char s) @ CHR 0x22 # rest) = Inr (s, rest)"
  by (induction s) (simp_all add: parse_chars_escape cons_char_def)

lemma skip_ws_start: "\<not> is_json_ws c \<Longrightarrow> skip_ws (c # cs) = c # cs"
  by (simp add: skip_ws_def)

lemma show_nat_start: "\<exists>c cs. show_nat n = c # cs \<and> c \<in> set ''0123456789''"
proof -
  have "hd (show_nat n) \<in> set ''0123456789''"
  proof (induction n rule: show_nat.induct)
    case (1 n)
    show ?case
    proof (cases "n < 10")
      case True
      then show ?thesis using digit_char_is_digit [of n] by (simp add: show_nat_small)
    next
      case False
      with 1 show ?thesis by (subst show_nat.simps) (simp add: show_nat_nonempty)
    qed
  qed
  then show ?thesis using show_nat_nonempty [of n] by (cases "show_nat n") auto
qed

lemma number_start: "\<exists>c cs. number_to_string i = c # cs \<and> c \<in> set ''-0123456789''"
  using show_nat_start [of "nat i"] by (auto simp: number_to_string_def)

lemma json_text_start: "json_text v \<noteq> [] \<and> value_start (hd (json_text v))"
proof (cases v)
  case (JNum i)
  then show ?thesis using number_start [of i] by (auto simp: value_start_def)
next
  case (JBool b)
  then show ?thesis by (cases b) (simp_all add: value_start_def)
qed (simp_all add: value_start_def json_quote_def)

lemma value_start_not: 
  assumes "value_start c" 
  shows "\<not> is_json_ws c" "c \<noteq> CHR '']''" "c \<noteq> CHR ''}''" "c \<noteq> CHR '',''"
  using assms by (auto simp: value_start_def is_json_ws_def)


lemma parse_value_null: "parse_value (Suc n) (''null'' @ rest) = Inr (JNull, rest)"
  by (simp add: skip_ws_start is_json_ws_def)

lemma parse_value_true: "parse_value (Suc n) (''true'' @ rest) = Inr (JBool True, rest)"
  by (simp add: skip_ws_start is_json_ws_def)

lemma parse_value_false: "parse_value (Suc n) (''false'' @ rest) = Inr (JBool False, rest)"
  by (simp add: skip_ws_start is_json_ws_def)

lemma parse_value_string:
  "parse_value (Suc n) (json_quote s @ rest) = Inr (JStr s, rest)"
  by (simp add: json_quote_def skip_ws_start is_json_ws_def parse_chars_roundtrip)

lemma parse_value_number:
  assumes "follow_ok rest"
  shows "parse_value (Suc n) (number_to_string i @ rest) = Inr (JNum i, rest)"
proof -
  obtain c cs where c: "number_to_string i = c # cs" "c \<in> set ''-0123456789''"
    using number_start by blast
  then have "parse_value (Suc n) (number_to_string i @ rest) = parse_number (c # cs @ rest)"
    by (auto simp add: skip_ws_start is_json_ws_def)
  also have "\<dots> = Inr (JNum i, rest)"
    using parse_number_roundtrip [OF assms, of i] c by simp
  finally show ?thesis .
qed


lemma skip_ws_close [simp]:
  "skip_ws (CHR '']'' # r) = CHR '']'' # r" "skip_ws (CHR ''}'' # r) = CHR ''}'' # r"
  "skip_ws (CHR '','' # r) = CHR '','' # r" "skip_ws (CHR '':'' # r) = CHR '':'' # r"
  "skip_ws (CHR 0x22 # r) = CHR 0x22 # r"
  by (simp_all add: skip_ws_def is_json_ws_def)

lemma follow_ok_simps [simp]:
  "follow_ok []" "follow_ok (CHR '']'' # r)" "follow_ok (CHR ''}'' # r)" "follow_ok (CHR '','' # r)"
  by (simp_all add: follow_ok_def)

lemma parse_elements_roundtrip:
  assumes "\<And>x n rest. x \<in> set xs \<Longrightarrow> length (json_text x) < n \<Longrightarrow> follow_ok rest
             \<Longrightarrow> parse_value n (json_text x @ rest) = Inr (x, rest)"
    and "xs \<noteq> []"
    and "length (join_comma (map json_text xs)) + 2 \<le> n"
  shows "parse_elements n (join_comma (map json_text xs) @ CHR '']'' # rest) = Inr (xs, rest)"
  using assms
proof (induction xs arbitrary: n)
  case Nil
  then show ?case by simp
next
  case (Cons x xs)
  from Cons.prems(3) obtain m where n: "n = Suc m"
    by (cases n) auto
  show ?case
  proof (cases xs)
    case Nil
    with Cons.prems(3) n have "length (json_text x) < m" by simp
    then have "parse_value m (json_text x @ CHR '']'' # rest) = Inr (x, CHR '']'' # rest)"
      by (intro Cons.prems(1)) simp_all
    with Nil n show ?thesis by simp
  next
    case (Cons y ys)
    let ?more = "join_comma (map json_text (y # ys))"
    from Cons Cons.prems(3) n
    have lx: "length (json_text x) < m" and lm: "length ?more + 2 \<le> m"
      by simp_all
    have "parse_value m (json_text x @ CHR '','' # ?more @ CHR '']'' # rest)
            = Inr (x, CHR '','' # ?more @ CHR '']'' # rest)"
      using lx by (intro Cons.prems(1)) simp_all
    moreover have "parse_elements m (?more @ CHR '']'' # rest) = Inr (y # ys, rest)"
      using Cons.IH [of m] Cons.prems(1) lm Cons by simp
    ultimately show ?thesis
      using Cons n by simp
  qed
qed

lemma member_text_pair: "member_text (k, v) = json_quote k @ CHR '':'' # json_text v"
  by (simp add: member_text_def)

lemma parse_members_roundtrip:
  assumes "\<And>k v n rest. (k, v) \<in> set kvs \<Longrightarrow> length (json_text v) < n \<Longrightarrow> follow_ok rest
             \<Longrightarrow> parse_value n (json_text v @ rest) = Inr (v, rest)"
    and "kvs \<noteq> []"
    and "length (join_comma (map member_text kvs)) + 2 \<le> n"
  shows "parse_members n acc (join_comma (map member_text kvs) @ CHR ''}'' # rest)
           = Inr (foldl (\<lambda>acc (k, v). obj_set acc k v) acc kvs, rest)"
  using assms
proof (induction kvs arbitrary: n acc)
  case Nil
  then show ?case by simp
next
  case (Cons kv kvs)
  obtain k v where kv: "kv = (k, v)" by (cases kv)
  from Cons.prems(3) obtain m where n: "n = Suc m"
    by (cases n) auto
  have key: "parse_chars (concat (map json_escape_char k) @ CHR 0x22 # r) = Inr (k, r)" for r
    by (rule parse_chars_roundtrip)
  show ?case
  proof (cases kvs)
    case Nil
    with Cons.prems(3) n kv have "length (json_text v) < m"
      by (simp add: member_text_pair)
    then have "parse_value m (json_text v @ CHR ''}'' # rest) = Inr (v, CHR ''}'' # rest)"
      using kv by (intro Cons.prems(1) [of k]) simp_all
    with Nil n kv show ?thesis
      by (simp add: member_text_pair json_quote_def key)
  next
    case (Cons kv' kvs')
    let ?more = "join_comma (map member_text (kv' # kvs'))"
    from Cons Cons.prems(3) n kv
    have lx: "length (json_text v) < m" and lm: "length ?more + 2 \<le> m"
      by (simp_all add: member_text_pair)
    have "parse_value m (json_text v @ CHR '','' # ?more @ CHR ''}'' # rest)
            = Inr (v, CHR '','' # ?more @ CHR ''}'' # rest)"
      using lx kv by (intro Cons.prems(1) [of k]) simp_all
    moreover have "parse_members m (obj_set acc k v) (?more @ CHR ''}'' # rest)
        = Inr (foldl (\<lambda>acc (k, v). obj_set acc k v) (obj_set acc k v) (kv' # kvs'), rest)"
      unfolding Cons [symmetric]
    proof (rule Cons.IH)
      show "kvs \<noteq> []" using Cons by simp
      show "length (join_comma (map member_text kvs)) + 2 \<le> m" using lm Cons by simp
      show "parse_value n (json_text v @ rest) = Inr (v, rest)"
        if "(k, v) \<in> set kvs" "length (json_text v) < n" "follow_ok rest" for k v n rest
        using that Cons.prems(1) [of k v n rest] by simp
    qed
    ultimately show ?thesis
      using Cons n kv by (simp add: member_text_pair json_quote_def key)
  qed
qed


lemma join_comma_start: "\<exists>ts'. join_comma ((c # t) # ts) = c # ts'"
  by (cases ts) simp_all

lemma elements_start:
  assumes "xs \<noteq> []"
  shows "\<exists>c cs. join_comma (map json_text xs) = c # cs \<and> value_start c"
proof -
  from assms obtain x xs' where xs: "xs = x # xs'" by (cases xs) auto
  obtain c t where t: "json_text x = c # t" "value_start c"
    using json_text_start [of x] by (cases "json_text x") auto
  with xs show ?thesis
    using join_comma_start [of c t "map json_text xs'"] by auto
qed

lemma members_start:
  assumes "kvs \<noteq> []"
  shows "\<exists>cs. join_comma (map member_text kvs) = CHR 0x22 # cs"
proof -
  from assms obtain kv kvs' where kvs: "kvs = kv # kvs'" by (cases kvs) auto
  then show ?thesis
    using join_comma_start [of "CHR 0x22" _ "map member_text kvs'"]
    by (simp add: member_text_def json_quote_def)
qed

lemma json_members_text:
  assumes "list_all (\<lambda>kv. is_json (snd kv)) kvs"
  shows "map (\<lambda>(k, v). json_quote k @ '':'' @ json_text v) (filter (\<lambda>(k, v). v \<noteq> JUndefined) kvs)
           = map member_text kvs"
  using assms by (induction kvs) (auto simp: member_text_def)

lemma parse_value_roundtrip:
  assumes "is_json v" and "length (json_text v) < n" and "follow_ok rest"
  shows "parse_value n (json_text v @ rest) = Inr (v, rest)"
  using assms
proof (induction v arbitrary: n rest)
  case JUndefined
  then show ?case by simp
next
  case JNull
  then obtain m where "n = Suc m" by (cases n) auto
  then show ?case using parse_value_null [of m rest] by simp
next
  case (JBool b)
  then obtain m where "n = Suc m" by (cases n) auto
  then show ?case
    using parse_value_true [of m rest] parse_value_false [of m rest] by (cases b) simp_all
next
  case (JNum i)
  then obtain m where "n = Suc m" by (cases n) auto
  then show ?case using parse_value_number [OF JNum.prems(3), of m i] by simp
next
  case JNaN
  then show ?case by simp
next
  case (JStr s)
  then obtain m where "n = Suc m" by (cases n) auto
  then show ?case using parse_value_string [of m s rest] by simp
next
  case (JArr xs)
  from JArr.prems(2) obtain m where n: "n = Suc m" by (cases n) auto
  show ?case
  proof (cases "xs = []")
    case True
    with n show ?thesis by (simp add: skip_ws_start is_json_ws_def)
  next
    case False
    let ?elems = "join_comma (map json_text xs)"
    obtain c cs where c: "?elems = c # cs" "value_start c"
      using elements_start [OF False] by blast
    have "length ?elems + 2 \<le> m"
      using JArr.prems(2) n by simp
    then have "parse_elements m (?elems @ CHR '']'' # rest) = Inr (xs, rest)"
    proof (intro parse_elements_roundtrip False)
      show "parse_value n (json_text x @ rest) = Inr (x, rest)"
        if "x \<in> set xs" "length (json_text x) < n" "follow_ok rest" for x n rest
        using that JArr.IH [of x n rest] JArr.prems(1) by (simp add: list_all_iff)
    qed
    then show ?thesis
      using n c value_start_not [OF c(2)]
      by (simp add: skip_ws_start is_json_ws_def)
  qed
next
  case (JObj kvs)
  from JObj.prems(2) obtain m where n: "n = Suc m" by (cases n) auto
  from JObj.prems(1) have ord: "obj_ordered kvs" and js: "list_all (\<lambda>kv. is_json (snd kv)) kvs"
    by simp_all
  have jt: "json_text (JObj kvs) = CHR ''{'' # join_comma (map member_text kvs) @ ''}''"
    using json_members_text [OF js] by simp
  show ?case
  proof (cases "kvs = []")
    case True
    with n show ?thesis by (simp add: skip_ws_start is_json_ws_def)
  next
    case False
    let ?mems = "join_comma (map member_text kvs)"
    obtain cs where c: "?mems = CHR 0x22 # cs"
      using members_start [OF False] by blast
    have "length ?mems + 2 \<le> m"
      using JObj.prems(2) n jt by simp
    then have "parse_members m [] (?mems @ CHR ''}'' # rest)
        = Inr (foldl (\<lambda>acc (k, v). obj_set acc k v) [] kvs, rest)"
    proof (intro parse_members_roundtrip False)
      show "parse_value n (json_text v @ rest) = Inr (v, rest)"
        if "(k, v) \<in> set kvs" "length (json_text v) < n" "follow_ok rest" for k v n rest
      proof -
        from that(1) js have "is_json v" by (auto simp add: list_all_iff)
        moreover have "v \<in> Basic_BNFs.snds (k, v)" by simp
        ultimately show ?thesis using that JObj.IH [of "(k, v)" v n rest] by simp
      qed
    qed
    then show ?thesis
      using n c ord jt
      by (simp add: skip_ws_start is_json_ws_def obj_ordered_def)
  qed
qed

text \<open>\<^verbatim>\<open>JSON.parse(JSON.stringify(v))\<close> is \<open>v\<close> for every JSON value, with the fuel
  \<^verbatim>\<open>JSON.parse\<close> gives.\<close>

lemma JSON_parse_stringify:
  assumes "is_json v"
  shows "JSON_parse (json_text v) = Inr v"
  using parse_value_roundtrip [OF assms, of "2 * length (json_text v) + 2" "[]"]
  by (simp add: JSON_parse_def skip_ws_def)


lemma obj_ordered_plain:
  assumes "distinct (map fst kvs)" and "\<forall>k \<in> set (map fst kvs). \<not> is_array_index k"
  shows "obj_ordered kvs"
proof -
  have "foldl (\<lambda>acc (k, v). obj_set acc k v) acc kvs = acc @ kvs"
    if "distinct (map fst (acc @ kvs))" "\<forall>k \<in> set (map fst kvs). \<not> is_array_index k" for acc
    using that
  proof (induction kvs arbitrary: acc)
    case Nil
    then show ?case by simp
  next
    case (Cons kv kvs)
    obtain k v where kv: "kv = (k, v)" by (cases kv)
    with Cons.prems have "obj_set acc k v = acc @ [(k, v)]"
      by (auto simp add: obj_set_def)
    moreover have "foldl (\<lambda>acc (k, v). obj_set acc k v) (acc @ [(k, v)]) kvs = (acc @ [(k, v)]) @ kvs"
      using Cons.prems kv by (intro Cons.IH) auto
    ultimately show ?case using kv by simp
  qed
  from this [of "[]"] assms show ?thesis by (simp add: obj_ordered_def)
qed

subsection \<open>The fuel of the readers\<close>

text \<open>Each reader that returns has consumed at least one character, so the nesting of the
  calls is bounded by the length of the text and the fuel \<^verbatim>\<open>JSON.parse\<close> gives is never
  exhausted: a text is either read or refused.\<close>

lemma skip_ws_length: "length (skip_ws s) \<le> length s"
  by (simp add: skip_ws_def length_dropWhile_le)

lemma skip_ws_Cons_length: "skip_ws s = c # r \<Longrightarrow> length r < length s"
  using skip_ws_length [of s] by simp

lemma cons_char_Inr: "cons_char c r = Inr (str, rest) \<Longrightarrow> \<exists>str'. r = Inr (str', rest)"
  by (auto simp: cons_char_def split: sum.splits)

lemma parse_chars_shorter: "parse_chars s = Inr (str, rest) \<Longrightarrow> length rest < length s"
proof (induction s arbitrary: str rule: parse_chars.induct)
  case 1
  then show ?case by simp
next
  case (2 c cs)
  show ?case
  proof (cases "c = CHR 0x22")
    case True
    with 2 show ?thesis by simp
  next
    case q: False
    show ?thesis
    proof (cases "c = CHR 0x5C")
      case False
      with q "2.prems" have n: "\<not> (of_char c :: nat) < 32"
        and "cons_char c (parse_chars cs) = Inr (str, rest)"
        by (auto split: if_splits)
      then obtain str' where "parse_chars cs = Inr (str', rest)"
        using cons_char_Inr by blast
      with "2.IH"(3) [OF q False n] show ?thesis by simp
    next
      case True
      with q "2.prems" obtain e cs' where cs: "cs = e # cs'"
        by (cases cs) auto
      show ?thesis
      proof (cases "e = CHR ''u''")
        case u: True
        with q True cs "2.prems" obtain code where code: "hex4 (take 4 cs') = Some code" "code < 256"
          and "cons_char (char_of code) (parse_chars (drop 4 cs')) = Inr (str, rest)"
          by (auto split: option.splits if_splits)
        then obtain str' where "parse_chars (drop 4 cs') = Inr (str', rest)"
          using cons_char_Inr by blast
        with "2.IH"(1) [OF q True cs u code] cs show ?thesis by simp
      next
        case nu: False
        with q True cs "2.prems" obtain ch where ch: "unescape e = Some ch"
          and "cons_char ch (parse_chars cs') = Inr (str, rest)"
          by (auto split: option.splits)
        then obtain str' where "parse_chars cs' = Inr (str', rest)"
          using cons_char_Inr by blast
        with "2.IH"(2) [OF q True cs nu ch] cs show ?thesis by simp
      qed
    qed
  qed
qed

lemma parse_number_shorter:
  assumes "parse_number s = Inr (v, rest)"
  shows "length rest < length s"
proof -
  define s1 where "s1 = (if s \<noteq> [] \<and> hd s = CHR ''-'' then tl s else s)"
  from assms have ne: "takeWhile (is_radix_digit 10) s1 \<noteq> []"
    and r: "rest = dropWhile (is_radix_digit 10) s1"
    by (auto simp: parse_number_def Let_def s1_def split: if_splits)
  have "length (takeWhile (is_radix_digit 10) s1) + length (dropWhile (is_radix_digit 10) s1)
          = length s1"
    by (metis length_append takeWhile_dropWhile_id)
  moreover have "0 < length (takeWhile (is_radix_digit 10) s1)" using ne by simp
  ultimately have "length rest < length s1" unfolding r by linarith
  moreover have "length s1 \<le> length s" by (simp add: s1_def)
  ultimately show ?thesis by linarith
qed


lemma skip_ws_le: "skip_ws s = c # r \<Longrightarrow> length r < length s \<and> length (c # r) \<le> length s"
  using skip_ws_length [of s] by simp

lemma parse_shorter:
  "(\<forall>s v rest. parse_value n s = Inr (v, rest) \<longrightarrow> length rest < length s)
   \<and> (\<forall>s xs rest. parse_elements n s = Inr (xs, rest) \<longrightarrow> length rest < length s)
   \<and> (\<forall>acc s kvs rest. parse_members n acc s = Inr (kvs, rest) \<longrightarrow> length rest < length s)"
proof (induction n)
  case 0
  then show ?case by simp
next
  case (Suc n)
  have pv: "length rest < length s" if "parse_value (Suc n) s = Inr (v, rest)" for s v rest
  proof -
    from that obtain c r where cr: "skip_ws s = c # r"
      by (cases "skip_ws s") auto
    note le = skip_ws_le [OF cr]
    consider (arr) "c = CHR ''[''" | (obj) "c \<noteq> CHR ''[''" "c = CHR ''{''"
      | (str) "c \<noteq> CHR ''[''" "c \<noteq> CHR ''{''" "c = CHR 0x22"
      | (other) "c \<noteq> CHR ''[''" "c \<noteq> CHR ''{''" "c \<noteq> CHR 0x22"
      by blast
    then show ?thesis
    proof cases
      case arr
      from that cr arr obtain c' r' where c': "skip_ws r = c' # r'"
        by (cases "skip_ws r") auto
      show ?thesis
      proof (cases "c' = CHR '']''")
        case True
        with that cr arr c' have "rest = r'" by simp
        with skip_ws_le [OF c'] le show ?thesis by simp
      next
        case False
        with that cr arr c' obtain xs where "parse_elements n r = Inr (xs, rest)"
          by (auto split: sum.splits)
        with Suc have "length rest < length r" by blast
        with le show ?thesis by simp
      qed
    next
      case obj
      from that cr obj obtain c' r' where c': "skip_ws r = c' # r'"
        by (cases "skip_ws r") auto
      show ?thesis
      proof (cases "c' = CHR ''}''")
        case True
        with that cr obj c' have "rest = r'" by simp
        with skip_ws_le [OF c'] le show ?thesis by simp
      next
        case False
        with that cr obj c' obtain kvs where "parse_members n [] r = Inr (kvs, rest)"
          by (auto split: sum.splits)
        with Suc have "length rest < length r" by blast
        with le show ?thesis by simp
      qed
    next
      case str
      with that cr obtain t where "parse_chars r = Inr (t, rest)"
        by (auto split: sum.splits)
      from parse_chars_shorter [OF this] le show ?thesis by simp
    next
      case other
      with that cr have "rest = drop 4 (c # r) \<or> rest = drop 5 (c # r)
          \<or> parse_number (c # r) = Inr (v, rest)"
        by (auto split: if_splits)
      then show ?thesis
        using le parse_number_shorter [of "c # r" v rest] by auto
    qed
  qed
  have pe: "length rest < length s" if "parse_elements (Suc n) s = Inr (xs, rest)" for s xs rest
  proof -
    from that obtain x r0 where x: "parse_value n s = Inr (x, r0)"
      by (auto split: sum.splits)
    with Suc have l0: "length r0 < length s" by blast
    from that x obtain c r where cr: "skip_ws r0 = c # r"
      by (cases "skip_ws r0") auto
    note le = skip_ws_le [OF cr]
    show ?thesis
    proof (cases "c = CHR '']''")
      case True
      with that x cr have "rest = r" by simp
      with le l0 show ?thesis by simp
    next
      case False
      with that x cr obtain ys where "parse_elements n r = Inr (ys, rest)"
        by (auto split: sum.splits if_splits)
      with Suc have "length rest < length r" by blast
      with le l0 show ?thesis by simp
    qed
  qed
  have pm: "length rest < length s" if "parse_members (Suc n) acc s = Inr (kvs, rest)"
    for acc s kvs rest
  proof -
    from that obtain q r where qr: "skip_ws s = q # r"
      by (cases "skip_ws s") auto
    with that have q: "q = CHR 0x22" by (auto split: if_splits)
    from that qr q obtain k r0 where k: "parse_chars r = Inr (k, r0)"
      by (auto split: sum.splits)
    from that qr q k obtain colon r1 where c1: "skip_ws r0 = colon # r1"
      by (cases "skip_ws r0") auto
    with that qr q k have colon: "colon = CHR '':''" by (auto split: if_splits)
    from that qr q k c1 colon obtain v r2 where v: "parse_value n r1 = Inr (v, r2)"
      by (auto split: sum.splits)
    from that qr q k c1 colon v obtain c r3 where c3: "skip_ws r2 = c # r3"
      by (cases "skip_ws r2") auto
    have chain: "length r3 < length s"
      using skip_ws_le [OF qr] parse_chars_shorter [OF k] skip_ws_le [OF c1] skip_ws_le [OF c3]
        Suc v by (meson dual_order.strict_trans)
    show ?thesis
    proof (cases "c = CHR ''}''")
      case True
      with that qr q k c1 colon v c3 have "rest = r3" by simp
      with chain show ?thesis by simp
    next
      case False
      with that qr q k c1 colon v c3 have "parse_members n (obj_set acc k v) r3 = Inr (kvs, rest)"
        by (auto split: if_splits)
      with Suc have "length rest < length r3" by blast
      with chain show ?thesis by simp
    qed
  qed
  from pv pe pm show ?case by blast
qed


lemma cons_char_fuel: "r \<noteq> Inl OutOfFuel \<Longrightarrow> cons_char c r \<noteq> Inl OutOfFuel"
  by (auto simp: cons_char_def split: sum.splits)

lemma parse_chars_fuel: "parse_chars s \<noteq> Inl OutOfFuel"
proof (induction s rule: parse_chars.induct)
  case 1
  then show ?case by simp
next
  case (2 c cs)
  show ?case
  proof (cases "c = CHR 0x22")
    case True
    then show ?thesis by simp
  next
    case q: False
    show ?thesis
    proof (cases "c = CHR 0x5C")
      case False
      show ?thesis
      proof (cases "(of_char c :: nat) < 32")
        case True
        with q False show ?thesis by simp
      next
        case n: False
        from "2.IH"(3) [OF q False n] have "cons_char c (parse_chars cs) \<noteq> Inl OutOfFuel"
          by (rule cons_char_fuel)
        with q False n show ?thesis by simp
      qed
    next
      case True
      show ?thesis
      proof (cases cs)
        case Nil
        with q True show ?thesis by simp
      next
        case (Cons e cs')
        show ?thesis
        proof (cases "e = CHR ''u''")
          case u: True
          show ?thesis
          proof (cases "hex4 (take 4 cs')")
            case None
            with q True Cons u show ?thesis by simp
          next
            case (Some code)
            show ?thesis
            proof (cases "code < 256")
              case False
              with q True Cons u Some show ?thesis by simp
            next
              case lt: True
              from "2.IH"(1) [OF q True Cons u Some lt]
              have "cons_char (char_of code) (parse_chars (drop 4 cs')) \<noteq> Inl OutOfFuel"
                by (rule cons_char_fuel)
              with q True Cons u Some lt show ?thesis by simp
            qed
          qed
        next
          case nu: False
          show ?thesis
          proof (cases "unescape e")
            case None
            with q True Cons nu show ?thesis by simp
          next
            case (Some ch)
            from "2.IH"(2) [OF q True Cons nu Some]
            have "cons_char ch (parse_chars cs') \<noteq> Inl OutOfFuel"
              by (rule cons_char_fuel)
            with q True Cons nu Some show ?thesis by simp
          qed
        qed
      qed
    qed
  qed
qed

lemma parse_number_fuel: "parse_number s \<noteq> Inl OutOfFuel"
  by (simp add: parse_number_def Let_def)

lemma parse_fuel:
  "(\<forall>s. 2 * length s + 1 \<le> n \<longrightarrow> parse_value n s \<noteq> Inl OutOfFuel)
   \<and> (\<forall>s. 2 * length s + 2 \<le> n \<longrightarrow> parse_elements n s \<noteq> Inl OutOfFuel)
   \<and> (\<forall>acc s. 2 * length s + 1 \<le> n \<longrightarrow> parse_members n acc s \<noteq> Inl OutOfFuel)"
proof (induction n)
  case 0
  then show ?case by simp
next
  case (Suc n)
  note shorter = parse_shorter [of n]
  have pv: "parse_value (Suc n) s \<noteq> Inl OutOfFuel" if f: "2 * length s + 1 \<le> Suc n" for s
  proof (cases "skip_ws s")
    case Nil
    then show ?thesis by simp
  next
    case (Cons c r)
    note le = skip_ws_le [OF Cons]
    have e: "parse_elements n r \<noteq> Inl OutOfFuel" and m: "parse_members n [] r \<noteq> Inl OutOfFuel"
      using Suc le f by auto
    show ?thesis
      using Cons e m parse_chars_fuel [of r] parse_number_fuel [of "c # r"]
      by (auto split: list.splits sum.splits)
  qed
  have pe: "parse_elements (Suc n) s \<noteq> Inl OutOfFuel" if f: "2 * length s + 2 \<le> Suc n" for s
  proof (cases "parse_value n s")
    case (Inl e)
    moreover have "parse_value n s \<noteq> Inl OutOfFuel" using Suc f by auto
    ultimately show ?thesis by auto
  next
    case (Inr p)
    obtain x r0 where p: "p = (x, r0)" by (cases p)
    with Inr shorter have l0: "length r0 < length s" by blast
    show ?thesis
    proof (cases "skip_ws r0")
      case Nil
      with Inr p show ?thesis by simp
    next
      case (Cons c r)
      note le = skip_ws_le [OF Cons]
      have "parse_elements n r \<noteq> Inl OutOfFuel"
        using Suc le l0 f by auto
      with Inr p Cons show ?thesis by (auto split: sum.splits)
    qed
  qed
  have pm: "parse_members (Suc n) acc s \<noteq> Inl OutOfFuel" if f: "2 * length s + 1 \<le> Suc n"
    for acc s
  proof (cases "skip_ws s")
    case Nil
    then show ?thesis by simp
  next
    case (Cons q r)
    note l1 = skip_ws_le [OF Cons]
    show ?thesis
    proof (cases "parse_chars r")
      case (Inl e)
      with Cons parse_chars_fuel [of r] show ?thesis by auto
    next
      case (Inr p)
      obtain k r0 where p: "p = (k, r0)" by (cases p)
      with Inr have l2: "length r0 < length r" using parse_chars_shorter by blast
      show ?thesis
      proof (cases "skip_ws r0")
        case Nil
        with Cons Inr p show ?thesis by simp
      next
        case c1: (Cons colon r1)
        note l3 = skip_ws_le [OF c1]
        show ?thesis
        proof (cases "parse_value n r1")
          case (Inl e)
          moreover have "parse_value n r1 \<noteq> Inl OutOfFuel"
            using Suc l1 l2 l3 f by auto
          ultimately show ?thesis using Cons Inr p c1 by auto
        next
          case v: (Inr pv)
          obtain v r2 where pv: "pv = (v, r2)" by (cases pv)
          with v shorter have l4: "length r2 < length r1" by blast
          show ?thesis
          proof (cases "skip_ws r2")
            case Nil
            with Cons Inr p c1 v pv show ?thesis by simp
          next
            case c3: (Cons c r3)
            note l5 = skip_ws_le [OF c3]
            have "parse_members n (obj_set acc k v) r3 \<noteq> Inl OutOfFuel"
              using Suc l1 l2 l3 l4 l5 f by auto
            with Cons Inr p c1 v pv c3 show ?thesis by auto
          qed
        qed
      qed
    qed
  qed
  from pv pe pm show ?case by blast
qed

lemma JSON_parse_fuel: "JSON_parse text \<noteq> Inl OutOfFuel"
proof -
  have "parse_value (2 * length text + 2) text \<noteq> Inl OutOfFuel"
    using parse_fuel [of "2 * length text + 2"] by simp
  then show ?thesis
    by (auto simp: JSON_parse_def split: sum.splits)
qed

subsection \<open>Encoding and decoding frames\<close>

text \<open>What \<^verbatim>\<open>authorize\<close> sends on an open socket is the text of a CALL frame.\<close>

lemma authorize_sends_call_frame:
  assumes "websocket s" and "js_to_string tagId = Inr tag_text"
  shows "\<exists>s'. authorize ocpp tagId s = Returns s'
     \<and> ws_sent (new_effects s s') =
         [json_text (call_frame (fst (generateId s)) ''Authorize'' (JObj [(''idTag'', tagId)]))]"
  using assms
  unfolding authorize_def Let_def setLastAction_eq logMsg_eq wsSendData_eq generateId_eq
  by (simp add: new_effects_def ws_sent_def del: append_Cons)

text \<open>The array \<^verbatim>\<open>sendStatusNotification\<close> turns into text is a JSON value.\<close>

lemma status_notification_is_json:
  "is_json (JArr [JNum 2, JStr ident, JStr ''StatusNotification'',
      JObj [(''connectorId'', JNum c), (''errorCode'', JStr ''NoError''),
            (''status'', JStr st), (''timestamp'', JStr ts)]])"
  by (simp add: obj_ordered_def obj_set_def is_array_index_def is_radix_digit_def
      digit_val_def)

text \<open>
  Claim C5. For every connector id \<open>c\<close>, after \<^verbatim>\<open>setConnectorAvailability(c, Inoperative)\<close>
  the stored status of connector \<open>c\<close> is Unavailable, and a StatusNotification CALL was
  handed to \<^verbatim>\<open>wsSendData\<close>: the text of the array \<^verbatim>\<open>[2, id, "StatusNotification", payload]\<close>
  whose payload has \<^verbatim>\<open>connectorId\<close> \<open>c\<close>, \<^verbatim>\<open>errorCode\<close> \<^verbatim>\<open>"NoError"\<close>, \<^verbatim>\<open>status\<close> Unavailable
  and the \<^verbatim>\<open>timestamp\<close> read from the clock. That text is on the console as an outbound
  line and, when the socket is open, it was sent on the socket; \<^verbatim>\<open>JSON.parse\<close> reads that
  array back from it. The key of the charge-point status must not be the key of the
  connector's status.
\<close>

theorem setConnectorAvailability_inoperative_unavailable:
  assumes "KEY_CP_STATUS ocpp \<noteq> KEY_CONN_STATUS ocpp @ number_to_string c"
  shows "let s' = setConnectorAvailability ocpp c (AVAILABITY_INOPERATIVE ocpp) s;
             payload = JObj [(''connectorId'', JNum c), (''errorCode'', JStr ''NoError''),
                             (''status'', JStr (CONN_UNAVAILABLE ocpp)),
                             (''timestamp'', JStr (clock s (clock_reads s)))];
             call = JArr [JNum 2, JStr (fst (generateId s)), JStr ''StatusNotification'', payload];
             frame = json_text call
         in connectorStatus ocpp c s' = CONN_UNAVAILABLE ocpp
          \<and> ConsoleLog (outbound_line (clock s (Suc (clock_reads s))) frame)
              \<in> set (new_effects s s')
          \<and> (websocket s \<longrightarrow> WsSend frame \<in> set (new_effects s s'))
          \<and> JSON_parse frame = Inr call"
  using setConnectorAvailability_inoperative_frame [OF assms, of s]
    JSON_parse_stringify [OF status_notification_is_json,
      of "fst (generateId s)" c "CONN_UNAVAILABLE ocpp" "clock s (clock_reads s)"]
  by (simp add: Let_def status_notification_def utc_now_iso_def)

theorem setConnectorAvailability_inoperative_unavailable_witness:
  "KEY_CP_STATUS sample_constants \<noteq> KEY_CONN_STATUS sample_constants @ number_to_string 0
   \<and> (let s' = setConnectorAvailability sample_constants 0
                  (AVAILABITY_INOPERATIVE sample_constants) sample_chargepoint;
          payload = JObj [(''connectorId'', JNum 0), (''errorCode'', JStr ''NoError''),
                          (''status'', JStr (CONN_UNAVAILABLE sample_constants)),
                          (''timestamp'',
                           JStr (clock sample_chargepoint (clock_reads sample_chargepoint)))];
          call = JArr [JNum 2, JStr (fst (generateId sample_chargepoint)),
                       JStr ''StatusNotification'', payload];
          frame = json_text call
      in connectorStatus sample_constants 0 s' = CONN_UNAVAILABLE sample_constants
       \<and> ConsoleLog (outbound_line
            (clock sample_chargepoint (Suc (clock_reads sample_chargepoint))) frame)
           \<in> set (new_effects sample_chargepoint s')
       \<and> websocket sample_chargepoint
       \<and> WsSend frame \<in> set (new_effects sample_chargepoint s')
       \<and> JSON_parse frame = Inr call)"
proof -
  have k: "KEY_CP_STATUS sample_constants \<noteq> KEY_CONN_STATUS sample_constants @ number_to_string 0"
    by (simp add: sample_constants_def)
  have w: "websocket sample_chargepoint"
    by (simp add: sample_chargepoint_def)
  show ?thesis
    using setConnectorAvailability_inoperative_unavailable [OF k, of sample_chargepoint] k w
    by (simp add: Let_def)
qed

text \<open>
  Claim C8. For every identifier, every action name \<open>A\<close> and every JSON payload \<open>P\<close>,
  the text of the CALL \<^verbatim>\<open>[2, id, A, P]\<close>, decoded by the \<^verbatim>\<open>onmessage\<close> callback, is the
  call of \<^verbatim>\<open>handleCallRequest\<close> with the same identifier, action \<open>A\<close> and payload \<open>P\<close>.
\<close>

theorem call_frame_roundtrip:
  assumes "is_json P"
  shows "onmessage_decode (json_text (call_frame ident A P))
           = Inr (CallRequest (JStr ident) (JStr A) P)"
proof -
  have "is_json (call_frame ident A P)"
    using assms by (simp add: call_frame_def)
  then have "JSON_parse (json_text (call_frame ident A P)) = Inr (call_frame ident A P)"
    by (rule JSON_parse_stringify)
  then show ?thesis
    by (simp add: onmessage_decode_def bind_error_def onmessage_dispatch_def call_frame_def)
qed

theorem call_frame_roundtrip_witness:
  "is_json (JObj [(''0'', JNull), (''transactionId'', JNum 42), (''idTag'', JStr ''TAG1''),
       (''tags'', JArr [JStr [CHR ''a'', CHR 0x22, CHR 0x0A], JBool False, JNum (- 7), JObj []])])
   \<and> onmessage_decode (json_text (call_frame ''id1'' ''StopTransaction''
        (JObj [(''0'', JNull), (''transactionId'', JNum 42), (''idTag'', JStr ''TAG1''),
           (''tags'', JArr [JStr [CHR ''a'', CHR 0x22, CHR 0x0A], JBool False, JNum (- 7),
                           JObj []])])))
      = Inr (CallRequest (JStr ''id1'') (JStr ''StopTransaction'')
          (JObj [(''0'', JNull), (''transactionId'', JNum 42), (''idTag'', JStr ''TAG1''),
             (''tags'', JArr [JStr [CHR ''a'', CHR 0x22, CHR 0x0A], JBool False, JNum (- 7),
                             JObj []])]))"
proof -
  have j: "is_json (JObj [(''0'', JNull), (''transactionId'', JNum 42),
       (''idTag'', JStr ''TAG1''),
       (''tags'', JArr [JStr [CHR ''a'', CHR 0x22, CHR 0x0A], JBool False, JNum (- 7), JObj []])])"
    by (simp add: obj_ordered_def obj_set_def is_array_index_def is_radix_digit_def
        digit_val_def digits_value_def)
  show ?thesis
    using call_frame_roundtrip [OF j, of "''id1''" "''StopTransaction''"] j by simp
qed

text \<open>
  Claim C1, as amended. When the decoded frame is an array whose first element is 2 and
  which has no fourth element, the payload passed to \<^verbatim>\<open>handleCallRequest\<close> is
  \<^verbatim>\<open>null\<close>; the identifier and the action are the second and third elements
  (\<^verbatim>\<open>undefined\<close> where the array is shorter).
\<close>

theorem onmessage_short_call_payload_null:
  assumes "length xs < 3"
  shows "\<exists>ident request.
           js_index (JArr (JNum 2 # xs)) 1 = Inr ident
         \<and> js_index (JArr (JNum 2 # xs)) 2 = Inr request
         \<and> onmessage_dispatch (JArr (JNum 2 # xs)) = Inr (CallRequest ident request JNull)"
  using assms by (simp add: onmessage_dispatch_def bind_error_def)

theorem onmessage_short_call_payload_null_witness:
  "length [JStr ''id1'', JStr ''Reset''] < 3
   \<and> (\<exists>ident request.
           js_index (JArr (JNum 2 # [JStr ''id1'', JStr ''Reset''])) 1 = Inr ident
         \<and> js_index (JArr (JNum 2 # [JStr ''id1'', JStr ''Reset''])) 2 = Inr request
         \<and> onmessage_dispatch (JArr (JNum 2 # [JStr ''id1'', JStr ''Reset'']))
             = Inr (CallRequest ident request JNull))"
proof -
  have l: "length [JStr ''id1'', JStr ''Reset''] < 3" by simp
  show ?thesis
    using onmessage_short_call_payload_null [OF l] l by blast
qed

text \<open>
  Claim C1 as stated fails: for the frame \<^verbatim>\<open>[2,"id1","UnlockConnector"]\<close> the handler is
  called with the payload \<^verbatim>\<open>null\<close>, which is not the empty object.
\<close>

theorem onmessage_short_call_not_empty_object:
  \<open>onmessage_decode ''[2,"id1","UnlockConnector"]''
     = Inr (CallRequest (JStr ''id1'') (JStr ''UnlockConnector'') JNull)
   \<and> JNull \<noteq> JObj []\<close>
  by code_simp

end
